theory Spec2Isabelle
  imports Complex_Main
begin

section \<open>JavaScript strings and numbers\<close>

text \<open>
  A JavaScript string is a sequence of UTF-16 code units; a code unit is modelled as a
  natural number. \<open>str\<close> turns an ASCII literal into its code units.
\<close>

type_synonym jsstring = "nat list"

definition str :: "string \<Rightarrow> jsstring" where
  "str cs = map of_char cs"

text \<open>White space as recognised by \<open>\s\<close> and by \<open>String.prototype.trim\<close>.\<close>

definition isWhiteSpace :: "nat \<Rightarrow> bool" where
  "isWhiteSpace u \<longleftrightarrow>
     u = 9 \<or> u = 10 \<or> u = 11 \<or> u = 12 \<or> u = 13 \<or> u = 32 \<or> u = 160 \<or> u = 5760 \<or>
     (8192 \<le> u \<and> u \<le> 8202) \<or> u = 8232 \<or> u = 8233 \<or> u = 8239 \<or> u = 8287 \<or>
     u = 12288 \<or> u = 65279"

definition isDigit :: "nat \<Rightarrow> bool" where
  "isDigit u \<longleftrightarrow> 48 \<le> u \<and> u \<le> 57"

definition asciiLower :: "nat \<Rightarrow> nat" where
  "asciiLower u = (if 65 \<le> u \<and> u \<le> 90 then u + 32 else u)"

definition asciiUpper :: "nat \<Rightarrow> nat" where
  "asciiUpper u = (if 97 \<le> u \<and> u \<le> 122 then u - 32 else u)"

text \<open>
  \<open>toLowerCase\<close>: on a string of ASCII code units it lowers the letters A to Z; on any
  other string the result comes from the engine's Unicode tables, which are a parameter.
\<close>

definition toLowerCase :: "(jsstring \<Rightarrow> jsstring) \<Rightarrow> jsstring \<Rightarrow> jsstring" where
  "toLowerCase unicodeLower s =
     (if list_all (\<lambda>u. u < 128) s then map asciiLower s else unicodeLower s)"

definition trim :: "jsstring \<Rightarrow> jsstring" where
  "trim s = rev (dropWhile isWhiteSpace (rev (dropWhile isWhiteSpace s)))"

text \<open>
  Numbers: the parser only produces non-negative integers or NaN, so a number is a
  \<open>nat option\<close> with \<open>None\<close> for NaN. \<open>parseInt\<close> is modelled on the inputs the
  parser gives it: \<open>undefined\<close> (\<open>None\<close>) or a capture, read up to its first non-digit.
\<close>

fun decimal :: "nat \<Rightarrow> jsstring" where
  "decimal n = (if n < 10 then [48 + n] else decimal (n div 10) @ [48 + n mod 10])"

declare decimal.simps [simp del]

definition numStr :: "nat option \<Rightarrow> jsstring" where
  "numStr v = (case v of None \<Rightarrow> str ''NaN'' | Some n \<Rightarrow> decimal n)"

definition parseInt :: "jsstring option \<Rightarrow> nat option" where
  "parseInt v =
     (case v of
        None \<Rightarrow> None
      | Some s \<Rightarrow>
          (let ds = takeWhile isDigit s
           in if ds = [] then None else Some (foldl (\<lambda>a d. 10 * a + (d - 48)) 0 ds)))"

definition jsAdd :: "nat option \<Rightarrow> nat \<Rightarrow> nat option" where
  "jsAdd v k = (case v of None \<Rightarrow> None | Some n \<Rightarrow> Some (n + k))"

definition padStart2 :: "jsstring \<Rightarrow> jsstring" where
  "padStart2 s = replicate (2 - length s) 48 @ s"

text \<open>Truthiness of a value that is a string or null.\<close>

definition truthy :: "jsstring option \<Rightarrow> bool" where
  "truthy v = (case v of None \<Rightarrow> False | Some s \<Rightarrow> s \<noteq> [])"

section \<open>Regular expressions\<close>

text \<open>
  The regular expressions of the parser, with the backtracking semantics of
  \<open>String.prototype.match\<close> for a pattern without the global flag: the leftmost start
  position at which the pattern matches, alternatives tried left to right, quantifiers
  greedy. The result maps a group number to the text the group captured.
\<close>

datatype atom = Chr char | Digit | Space | OneOf "nat list"

datatype regex =
    Atom atom
  | Seq regex regex
  | Alt regex regex
  | Star regex
  | Group nat regex
  | Bol
  | Eol
  | Eps

type_synonym captures = "nat \<rightharpoonup> jsstring"

text \<open>Matcher state: index into the text, remaining text, captures so far.\<close>

type_synonym mstate = "nat \<times> jsstring \<times> captures"

type_synonym cont = "mstate \<Rightarrow> captures option"

text \<open>
  The flag \<open>i\<close> compares canonicalised code units. All letters in the patterns are ASCII,
  and ECMAScript never canonicalises a non-ASCII code unit to an ASCII one, so upper-casing
  a to z is the whole of it here.
\<close>

definition canon :: "bool \<Rightarrow> nat \<Rightarrow> nat" where
  "canon ic u = (if ic then asciiUpper u else u)"

definition atomMatches :: "bool \<Rightarrow> atom \<Rightarrow> nat \<Rightarrow> bool" where
  "atomMatches ic a u =
     (case a of
        Chr c \<Rightarrow> canon ic u = canon ic (of_char c)
      | Digit \<Rightarrow> isDigit u
      | Space \<Rightarrow> isWhiteSpace u
      | OneOf us \<Rightarrow> canon ic u \<in> set (map (canon ic) us))"

text \<open>
  Greedy iteration: one more round of the body, which has to consume input, before the
  continuation is tried. The remaining length bounds the number of rounds.
\<close>

primrec starLoop :: "(cont \<Rightarrow> mstate \<Rightarrow> captures option) \<Rightarrow> cont \<Rightarrow> nat \<Rightarrow> mstate \<Rightarrow> captures option" where
  "starLoop step k 0 s = k s"
| "starLoop step k (Suc n) s =
     (case step (\<lambda>s'. if length (fst (snd s')) < length (fst (snd s))
                       then starLoop step k n s' else None) s of
        Some c \<Rightarrow> Some c
      | None \<Rightarrow> k s)"

primrec rmatch :: "bool \<Rightarrow> regex \<Rightarrow> cont \<Rightarrow> mstate \<Rightarrow> captures option" where
  "rmatch ic (Atom a) k s =
     (case fst (snd s) of
        [] \<Rightarrow> None
      | u # us \<Rightarrow> if atomMatches ic a u then k (Suc (fst s), us, snd (snd s)) else None)"
| "rmatch ic (Seq a b) k s = rmatch ic a (rmatch ic b k) s"
| "rmatch ic (Alt a b) k s =
     (case rmatch ic a k s of Some c \<Rightarrow> Some c | None \<Rightarrow> rmatch ic b k s)"
| "rmatch ic (Star a) k s = starLoop (rmatch ic a) k (length (fst (snd s))) s"
| "rmatch ic (Group n a) k s =
     rmatch ic a
       (\<lambda>s'. k (fst s', fst (snd s'),
                 (snd (snd s'))(n \<mapsto> take (fst s' - fst s) (fst (snd s))))) s"
| "rmatch ic Bol k s = (if fst s = 0 then k s else None)"
| "rmatch ic Eol k s = (if fst (snd s) = [] then k s else None)"
| "rmatch ic Eps k s = k s"

primrec matchFrom :: "bool \<Rightarrow> regex \<Rightarrow> nat \<Rightarrow> jsstring \<Rightarrow> captures option" where
  "matchFrom ic r i [] = rmatch ic r (\<lambda>s. Some (snd (snd s))) (i, [], Map.empty)"
| "matchFrom ic r i (u # us) =
     (case rmatch ic r (\<lambda>s. Some (snd (snd s))) (i, u # us, Map.empty) of
        Some c \<Rightarrow> Some c
      | None \<Rightarrow> matchFrom ic r (Suc i) us)"

text \<open>\<open>text.match(pattern)\<close>; the first argument is the flag \<open>i\<close>.\<close>

definition jsMatch :: "bool \<Rightarrow> regex \<Rightarrow> jsstring \<Rightarrow> captures option" where
  "jsMatch ic r text = matchFrom ic r 0 text"

text \<open>Pattern syntax built from the constructors.\<close>

definition seqs :: "regex list \<Rightarrow> regex" where
  "seqs rs = foldr Seq rs Eps"

primrec alts :: "regex list \<Rightarrow> regex" where
  "alts [] = Eps"
| "alts (r # rs) = (if rs = [] then r else Alt r (alts rs))"

definition lit :: "string \<Rightarrow> regex" where
  "lit cs = seqs (map (\<lambda>c. Atom (Chr c)) cs)"

definition plus :: "regex \<Rightarrow> regex" where
  "plus r = Seq r (Star r)"

definition opt :: "regex \<Rightarrow> regex" where
  "opt r = Alt r Eps"

text \<open>\<open>\s*\<close>, \<open>\s+\<close>, \<open>\d\<close>, \<open>\d{4}\<close>, \<open>\d{2,4}\<close> and the dash class (hyphen, en dash, em dash).\<close>

definition ws0 :: regex where
  "ws0 = Star (Atom Space)"

definition ws1 :: regex where
  "ws1 = plus (Atom Space)"

definition d1 :: regex where
  "d1 = Atom Digit"

definition d4 :: regex where
  "d4 = seqs [d1, d1, d1, d1]"

definition d2to4 :: regex where
  "d2to4 = seqs [d1, d1, opt (Seq d1 (opt d1))]"

definition dash :: regex where
  "dash = Atom (OneOf [45, 8211, 8212])"

section \<open>DateParser\<close>

text \<open>
  What the JavaScript engine supplies: the Unicode lower-casing of strings with non-ASCII
  code units, the current date (\<open>new Date()\<close>) and the Date constructor on a value that
  is a string or null (\<open>new Date(v)\<close>, with \<open>None\<close> for the argument null and \<open>None\<close>
  for a result whose time value is NaN). A Date is its time value in milliseconds and the
  local calendar fields read by \<open>formatDate\<close>.
\<close>

record jsdate =
  getTime :: int
  getFullYear :: int
  getMonth :: nat
  getDate :: nat

record engine =
  unicodeLower :: "jsstring \<Rightarrow> jsstring"
  now :: jsdate
  newDate :: "jsstring option \<Rightarrow> jsdate option"

record parseResult =
  startDate :: jsstring
  endDate :: "jsstring option"
  isOngoing :: bool

text \<open>The only exception a string input could raise: a method call on \<open>undefined\<close>.\<close>

datatype error = TypeError

definition MONTHS :: "(string \<times> nat) list" where
  "MONTHS =
     [(''january'', 0), (''jan'', 0),
      (''february'', 1), (''feb'', 1),
      (''march'', 2), (''mar'', 2),
      (''april'', 3), (''apr'', 3),
      (''may'', 4),
      (''june'', 5), (''jun'', 5),
      (''july'', 6), (''jul'', 6),
      (''august'', 7), (''aug'', 7),
      (''september'', 8), (''sep'', 8), (''sept'', 8),
      (''october'', 9), (''oct'', 9),
      (''november'', 10), (''nov'', 10),
      (''december'', 11), (''dec'', 11)]"

definition QUARTERS :: "(string \<times> nat) list" where
  "QUARTERS = [(''q1'', 1), (''q2'', 4), (''q3'', 7), (''q4'', 10)]"

definition SEASONS :: "(string \<times> nat) list" where
  "SEASONS = [(''spring'', 3), (''summer'', 6), (''fall'', 9), (''autumn'', 9), (''winter'', 0)]"

text \<open>Property lookup \<open>TABLE[key]\<close>; \<open>None\<close> is \<open>undefined\<close>.\<close>

definition lookup :: "(string \<times> nat) list \<Rightarrow> jsstring \<Rightarrow> nat option" where
  "lookup table key = map_of (map (\<lambda>(k, v). (str k, v)) table) key"

text \<open>Comparisons of a number with a constant; every comparison with NaN is false.\<close>

definition numGe :: "nat option \<Rightarrow> nat \<Rightarrow> bool" where
  "numGe v k = (case v of None \<Rightarrow> False | Some n \<Rightarrow> k \<le> n)"

definition numLe :: "nat option \<Rightarrow> nat \<Rightarrow> bool" where
  "numLe v k = (case v of None \<Rightarrow> False | Some n \<Rightarrow> n \<le> k)"

definition numLt :: "nat option \<Rightarrow> nat \<Rightarrow> bool" where
  "numLt v k = (case v of None \<Rightarrow> False | Some n \<Rightarrow> n < k)"

subsection \<open>Patterns\<close>

text \<open>The alternation of month names, in the order of the pattern (the key order of \<open>MONTHS\<close>).\<close>

definition monthAlt :: regex where
  "monthAlt = alts (map (\<lambda>(k, v). lit k) MONTHS)"

definition monthRangeYearsPattern :: regex where
  "monthRangeYearsPattern =
     seqs [Group 1 monthAlt, ws1, Group 2 d4, ws0, dash, ws0, Group 3 monthAlt, ws1, Group 4 d4]"

definition monthRangePattern :: regex where
  "monthRangePattern = seqs [Group 1 monthAlt, ws0, dash, ws0, Group 2 monthAlt, ws1, Group 3 d4]"

definition quarterRangePattern :: regex where
  "quarterRangePattern =
     seqs [lit ''q'', Group 1 d1, ws0, dash, ws0, lit ''q'', Group 2 d1, ws1, Group 3 d4]"

definition yearRangePattern :: regex where
  "yearRangePattern = seqs [Group 1 d4, ws0, dash, ws0, Group 2 d4]"

definition fyPattern :: regex where
  "fyPattern = seqs [Alt (lit ''fy'') (seqs [lit ''fiscal'', ws1, lit ''year'']), ws0, Group 1 d2to4]"

definition qPattern :: regex where
  "qPattern =
     seqs [Alt (lit ''q'') (lit ''quarter''), ws0, Group 1 d1, ws0, opt (seqs [lit ''of'', ws1]),
           Group 2 d4]"

definition seasonPattern :: "string \<Rightarrow> regex" where
  "seasonPattern season = seqs [lit season, ws1, opt (seqs [lit ''of'', ws1]), Group 1 d4]"

definition monthPattern :: "string \<Rightarrow> regex" where
  "monthPattern monthName = seqs [opt (seqs [lit ''by'', ws1]), lit monthName, ws1, Group 1 d4]"

definition vaguePatterns :: "(regex \<times> nat) list" where
  "vaguePatterns =
     [(seqs [lit ''early'', Atom (OneOf [45, 32]), Group 1 d4], 2),
      (seqs [lit ''mid'', Atom (OneOf [45, 32]), Group 1 d4], 7),
      (seqs [lit ''late'', Atom (OneOf [45, 32]), Group 1 d4], 10)]"

definition endPattern :: regex where
  "endPattern =
     seqs [Alt (seqs [lit ''end'', ws1, lit ''of''])
               (seqs [lit ''by'', ws1, lit ''the'', ws1, lit ''end'', ws1, lit ''of'']),
           ws1, Group 1 d4]"

definition startPattern :: regex where
  "startPattern =
     seqs [Alt (seqs [lit ''start'', opt (lit ''ing''), ws1, lit ''in''])
               (seqs [lit ''beginning'', ws1, Alt (lit ''in'') (lit ''of'')]),
           ws1, Group 1 d4]"

definition byYearPattern :: regex where
  "byYearPattern = seqs [lit ''by'', ws1, Group 1 d4]"

definition yearPattern :: regex where
  "yearPattern = seqs [Alt Bol (Atom Space), Group 1 d4, Alt (Atom Space) Eol]"

subsection \<open>Strategies\<close>

definition parseRange :: "(jsstring \<Rightarrow> jsstring) \<Rightarrow> jsstring \<Rightarrow> error + parseResult option" where
  "parseRange ul text =
     (case jsMatch True monthRangeYearsPattern text of
        Some m \<Rightarrow>
          (case (m 1, m 3) of
             (Some g1, Some g3) \<Rightarrow>
               (let startMonth = lookup MONTHS (toLowerCase ul g1);
                    startYear = parseInt (m 2);
                    endMonth = lookup MONTHS (toLowerCase ul g3);
                    endYear = parseInt (m 4)
                in Inr (Some \<lparr>
                     startDate = numStr startYear @ str ''-'' @
                                 padStart2 (numStr (jsAdd startMonth 1)) @ str ''-01'',
                     endDate = Some (numStr endYear @ str ''-'' @
                                 padStart2 (numStr (jsAdd endMonth 1)) @ str ''-28''),
                     isOngoing = False \<rparr>))
           | _ \<Rightarrow> Inl TypeError)
      | None \<Rightarrow>
     (case jsMatch True monthRangePattern text of
        Some m \<Rightarrow>
          (case (m 1, m 2) of
             (Some g1, Some g2) \<Rightarrow>
               (let startMonth = lookup MONTHS (toLowerCase ul g1);
                    endMonth = lookup MONTHS (toLowerCase ul g2);
                    year = parseInt (m 3)
                in Inr (Some \<lparr>
                     startDate = numStr year @ str ''-'' @
                                 padStart2 (numStr (jsAdd startMonth 1)) @ str ''-01'',
                     endDate = Some (numStr year @ str ''-'' @
                                 padStart2 (numStr (jsAdd endMonth 1)) @ str ''-28''),
                     isOngoing = False \<rparr>))
           | _ \<Rightarrow> Inl TypeError)
      | None \<Rightarrow>
     (case (case jsMatch True quarterRangePattern text of
              Some m \<Rightarrow>
                (let startQ = parseInt (m 1);
                     endQ = parseInt (m 2);
                     year = parseInt (m 3)
                 in if numGe startQ 1 \<and> numLe startQ 4 \<and> numGe endQ 1 \<and> numLe endQ 4
                    then (let startMonth = lookup QUARTERS (str ''q'' @ numStr startQ);
                              endMonth = lookup QUARTERS (str ''q'' @ numStr endQ)
                          in Some \<lparr>
                               startDate = numStr year @ str ''-'' @
                                           padStart2 (numStr startMonth) @ str ''-01'',
                               endDate = Some (numStr year @ str ''-'' @
                                           padStart2 (numStr (jsAdd endMonth 2)) @ str ''-28''),
                               isOngoing = False \<rparr>)
                    else None)
            | None \<Rightarrow> None) of
        Some r \<Rightarrow> Inr (Some r)
      | None \<Rightarrow>
     (case jsMatch False yearRangePattern text of
        Some m \<Rightarrow>
          (let startYear = parseInt (m 1);
               endYear = parseInt (m 2)
           in Inr (Some \<lparr>
                startDate = numStr startYear @ str ''-01-01'',
                endDate = Some (numStr endYear @ str ''-12-31''),
                isOngoing = False \<rparr>))
      | None \<Rightarrow> Inr None))))"

definition parseFiscalYear :: "jsstring \<Rightarrow> jsstring option" where
  "parseFiscalYear text =
     (case jsMatch True fyPattern text of
        Some m \<Rightarrow>
          (let year = parseInt (m 1);
               year = (if numLt year 100 then jsAdd year 2000 else year)
           in Some (numStr year @ str ''-09-30''))
      | None \<Rightarrow> None)"

definition parseQuarter :: "jsstring \<Rightarrow> jsstring option" where
  "parseQuarter text =
     (case jsMatch True qPattern text of
        Some m \<Rightarrow>
          (let quarter = parseInt (m 1);
               year = parseInt (m 2)
           in if numGe quarter 1 \<and> numLe quarter 4
              then (let month = lookup QUARTERS (str ''q'' @ numStr quarter)
                    in Some (numStr year @ str ''-'' @ padStart2 (numStr month) @ str ''-01''))
              else None)
      | None \<Rightarrow> None)"

text \<open>The loops over \<open>Object.entries\<close>, in insertion order; the first match returns.\<close>

fun parseSeasonLoop :: "(string \<times> nat) list \<Rightarrow> jsstring \<Rightarrow> jsstring option" where
  "parseSeasonLoop [] text = None"
| "parseSeasonLoop ((season, month) # entries) text =
     (case jsMatch True (seasonPattern season) text of
        Some m \<Rightarrow>
          (let year = parseInt (m 1);
               adjustedYear = (if season = ''winter'' \<and> month = 0 then jsAdd year 1 else year)
           in Some (numStr adjustedYear @ str ''-'' @
                    padStart2 (numStr (Some (month + 1))) @ str ''-01''))
      | None \<Rightarrow> parseSeasonLoop entries text)"

definition parseSeason :: "jsstring \<Rightarrow> jsstring option" where
  "parseSeason text = parseSeasonLoop SEASONS text"

fun parseMonthLoop :: "(string \<times> nat) list \<Rightarrow> jsstring \<Rightarrow> jsstring option" where
  "parseMonthLoop [] text = None"
| "parseMonthLoop ((monthName, monthIndex) # entries) text =
     (case jsMatch True (monthPattern monthName) text of
        Some m \<Rightarrow>
          (let year = parseInt (m 1)
           in Some (numStr year @ str ''-'' @
                    padStart2 (numStr (Some (monthIndex + 1))) @ str ''-01''))
      | None \<Rightarrow> parseMonthLoop entries text)"

definition parseMonth :: "jsstring \<Rightarrow> jsstring option" where
  "parseMonth text = parseMonthLoop MONTHS text"

fun parseVagueLoop :: "(regex \<times> nat) list \<Rightarrow> jsstring \<Rightarrow> jsstring option" where
  "parseVagueLoop [] text = None"
| "parseVagueLoop ((regex, month) # patterns) text =
     (case jsMatch False regex text of
        Some m \<Rightarrow>
          (let year = parseInt (m 1)
           in Some (numStr year @ str ''-'' @ padStart2 (numStr (Some month)) @ str ''-01''))
      | None \<Rightarrow> parseVagueLoop patterns text)"

definition parseVaguePeriod :: "jsstring \<Rightarrow> jsstring option" where
  "parseVaguePeriod text = parseVagueLoop vaguePatterns text"

definition parseEndOfYear :: "jsstring \<Rightarrow> jsstring option" where
  "parseEndOfYear text =
     (case jsMatch True endPattern text of
        Some m \<Rightarrow> (let year = parseInt (m 1) in Some (numStr year @ str ''-12-31''))
      | None \<Rightarrow> None)"

definition parseStartingIn :: "jsstring \<Rightarrow> jsstring option" where
  "parseStartingIn text =
     (case jsMatch True startPattern text of
        Some m \<Rightarrow> (let year = parseInt (m 1) in Some (numStr year @ str ''-01-01''))
      | None \<Rightarrow> None)"

definition parseYear :: "jsstring \<Rightarrow> jsstring option" where
  "parseYear text =
     (case (case jsMatch True byYearPattern text of
              Some m \<Rightarrow>
                (let year = parseInt (m 1)
                 in if numGe year 2000 \<and> numLe year 2100
                    then Some (numStr year @ str ''-01-01'') else None)
            | None \<Rightarrow> None) of
        Some d \<Rightarrow> Some d
      | None \<Rightarrow>
          (case jsMatch False yearPattern text of
             Some m \<Rightarrow>
               (let year = parseInt (m 1)
                in if numGe year 2000 \<and> numLe year 2100
                   then Some (numStr year @ str ''-07-01'') else None)
           | None \<Rightarrow> None))"

definition intStr :: "int \<Rightarrow> jsstring" where
  "intStr i = (if i < 0 then 45 # decimal (nat (- i)) else decimal (nat i))"

definition formatDate :: "jsdate \<Rightarrow> jsstring" where
  "formatDate d =
     intStr (getFullYear d) @ str ''-'' @ padStart2 (decimal (getMonth d + 1)) @ str ''-'' @
     padStart2 (decimal (getDate d))"

subsection \<open>parse\<close>

definition point :: "jsstring \<Rightarrow> error + parseResult option" where
  "point d = Inr (Some \<lparr> startDate = d, endDate = None, isOngoing = False \<rparr>)"

text \<open>
  One step of the chain \<open>result = f(normalized); if (result) return {...}\<close>: a truthy
  result is returned as a point, anything else continues with the rest.
\<close>

definition strategy :: "jsstring option \<Rightarrow> error + parseResult option \<Rightarrow> error + parseResult option" where
  "strategy result rest = (if truthy result then (case result of Some d \<Rightarrow> point d | None \<Rightarrow> rest) else rest)"

text \<open>
  The body of the \<open>try\<close> block: the single-date strategies in order, then the Date
  constructor on the raw text. None of its operations raises on a string, so it has no
  error branch of its own and the \<open>catch\<close> is never entered.
\<close>

definition tryBlock :: "engine \<Rightarrow> jsstring \<Rightarrow> jsstring \<Rightarrow> error + parseResult option" where
  "tryBlock E text normalized =
     strategy (parseFiscalYear normalized)
    (strategy (parseQuarter normalized)
    (strategy (parseSeason normalized)
    (strategy (parseMonth normalized)
    (strategy (parseVaguePeriod normalized)
    (strategy (parseEndOfYear normalized)
    (strategy (parseStartingIn normalized)
    (strategy (parseYear normalized)
    (case newDate E (Some text) of
       Some date \<Rightarrow> point (formatDate date)
     | None \<Rightarrow> Inr None))))))))"

text \<open>\<open>parseRange\<close> runs before the \<open>try\<close> block, so an exception in it would escape.\<close>

definition parse :: "engine \<Rightarrow> jsstring \<Rightarrow> error + parseResult option" where
  "parse E text =
     (if text = [] then Inr None
      else
        (let normalized = trim (toLowerCase (unicodeLower E) text)
         in if normalized = str ''ongoing'' \<or> normalized = str ''continuous'' \<or>
               normalized = str ''tbd'' \<or> normalized = str ''indefinite''
            then Inr (Some \<lparr> startDate = formatDate (now E), endDate = None, isOngoing = True \<rparr>)
            else
              (case parseRange (unicodeLower E) normalized of
                 Inl e \<Rightarrow> Inl e
               | Inr (Some rangeResult) \<Rightarrow> Inr (Some rangeResult)
               | Inr None \<Rightarrow> tryBlock E text normalized)))"

section \<open>Renderer\<close>

text \<open>
  Pixel coordinates, zoom and scale are JavaScript doubles; they are modelled as real
  numbers, so rounding, infinities and NaN are not part of the model. Every assignment to
  \<open>zoom\<close> in the source keeps it within 0.1 and 10, and a padded date range is at least
  one millisecond long, so the divisions below have non-zero divisors on every reachable
  state. Time values are integers (milliseconds); the limit of the Date range is not
  modelled.
\<close>

datatype viewMode = Single | Entity | Goal

text \<open>
  An event as the data manager stores it. A date field holds a string or null; \<open>entities\<close>
  and \<open>secondaryEntities\<close> are \<open>None\<close> when the field is not an array, \<open>entity\<close> and
  \<open>goal\<close> are \<open>None\<close> when undefined. The fields \<open>id\<close>, \<open>startDate\<close>, \<open>endDate\<close> and
  \<open>isOngoing\<close> of the source are \<open>evId\<close>, \<open>evStartDate\<close>, \<open>evEndDate\<close> and \<open>evIsOngoing\<close>
  here, since a parse result has fields of the same names.
\<close>

record event =
  evId :: jsstring
  title :: jsstring
  goal :: "jsstring option"
  entities :: "jsstring list option"
  entity :: "jsstring option"
  secondaryEntities :: "jsstring list option"
  evStartDate :: "jsstring option"
  evEndDate :: "jsstring option"
  evIsOngoing :: bool
  computedDate :: "jsstring option"

record filters =
  fSearch :: jsstring
  fEntity :: jsstring
  fGoal :: jsstring

text \<open>The bounding rectangle of the canvas element.\<close>

record rect =
  rWidth :: real
  rHeight :: real

text \<open>
  The renderer's module state: the \<open>state\<close> object and \<open>svg\<close>, which is \<open>None\<close> until
  \<open>init\<close> has found the canvas.
\<close>

record state =
  viewMode :: viewMode
  zoom :: real
  panX :: real
  panY :: real
  events :: "event list"
  filters :: filters
  entityColors :: "jsstring \<rightharpoonup> jsstring"
  isDragging :: bool
  lastMouseX :: real
  lastMouseY :: real
  svg :: "rect option"

definition MARGIN_top :: real where
  "MARGIN_top = 60"

definition MARGIN_right :: real where
  "MARGIN_right = 100"

definition MARGIN_bottom :: real where
  "MARGIN_bottom = 60"

definition MARGIN_left :: real where
  "MARGIN_left = 100"

definition SPLIT_VIEW_LABEL_WIDTH :: real where
  "SPLIT_VIEW_LABEL_WIDTH = 180"

definition BASE_ROW_HEIGHT :: real where
  "BASE_ROW_HEIGHT = 80"

definition getRowHeight :: "state \<Rightarrow> real" where
  "getRowHeight st =
     (let zoomThreshold = 2.5
      in if zoom st \<ge> zoomThreshold then BASE_ROW_HEIGHT
         else BASE_ROW_HEIGHT * (zoomThreshold / zoom st))"

text \<open>\<open>a || b\<close> on values that are strings or null.\<close>

definition orElse :: "jsstring option \<Rightarrow> jsstring option \<Rightarrow> jsstring option" where
  "orElse a b = (if truthy a then a else b)"

text \<open>The time value of \<open>new Date(v)\<close>, \<open>None\<close> when \<open>isNaN(getTime())\<close>.\<close>

definition validTime :: "engine \<Rightarrow> jsstring option \<Rightarrow> int option" where
  "validTime E v = map_option getTime (newDate E v)"

text \<open>
  The array \<open>dates\<close> that \<open>constrainPan\<close> and the render functions build from the events,
  as time values.
\<close>

definition collectDates :: "engine \<Rightarrow> event list \<Rightarrow> int list" where
  "collectDates E es =
     concat (map (\<lambda>e.
       (case validTime E (orElse (evStartDate e) (computedDate e)) of
          Some t \<Rightarrow> [t] | None \<Rightarrow> []) @
       (if truthy (evEndDate e)
        then (case validTime E (evEndDate e) of Some t \<Rightarrow> [t] | None \<Rightarrow> [])
        else [])) es)"

text \<open>\<open>Math.min(...dates)\<close> and \<open>Math.max(...dates)\<close>, only called on a non-empty array.\<close>

definition minOf :: "int list \<Rightarrow> int" where
  "minOf ts = (case ts of [] \<Rightarrow> 0 | t # r \<Rightarrow> foldl min t r)"

definition maxOf :: "int list \<Rightarrow> int" where
  "maxOf ts = (case ts of [] \<Rightarrow> 0 | t # r \<Rightarrow> foldl max t r)"

text \<open>\<open>new Date(number)\<close> drops the fraction of its argument.\<close>

definition timeClip :: "real \<Rightarrow> int" where
  "timeClip r = (if 0 \<le> r then \<lfloor>r\<rfloor> else \<lceil>r\<rceil>)"

text \<open>
  The padded range of a non-empty array of dates. The source's local variables
  \<open>startDate\<close> and \<open>endDate\<close> are called \<open>rangeStart\<close> and \<open>rangeEnd\<close> here.
\<close>

definition paddedRange :: "int list \<Rightarrow> int \<times> int" where
  "paddedRange dates =
     (let minDate = minOf dates;
          maxDate = maxOf dates;
          padding = (if real_of_int (maxDate - minDate) * 0.1 = 0 then 86400000 * 30
                     else real_of_int (maxDate - minDate) * 0.1)
      in (timeClip (real_of_int minDate - padding), timeClip (real_of_int maxDate + padding)))"

definition isSplit :: "state \<Rightarrow> bool" where
  "isSplit st \<longleftrightarrow> viewMode st = Entity \<or> viewMode st = Goal"

definition primaryEntities :: "event \<Rightarrow> jsstring option list" where
  "primaryEntities e = (case entities e of Some es \<Rightarrow> map Some es | None \<Rightarrow> [entity e])"

definition secondaryEntitiesOf :: "event \<Rightarrow> jsstring option list" where
  "secondaryEntitiesOf e = (case secondaryEntities e of Some es \<Rightarrow> map Some es | None \<Rightarrow> [])"

definition rowCount :: "state \<Rightarrow> nat" where
  "rowCount st =
     (if viewMode st = Entity
      then length (remdups (concat (map (\<lambda>e. primaryEntities e @ secondaryEntitiesOf e) (events st))))
      else length (remdups (concat (map (\<lambda>e. if truthy (goal e) then [goal e] else []) (events st)))))"

subsection \<open>constrainPan\<close>

definition constrainPan :: "engine \<Rightarrow> state \<Rightarrow> state" where
  "constrainPan E st =
     (case svg st of
        None \<Rightarrow> st
      | Some r \<Rightarrow>
          if events st = [] then st
          else
            (let width = rWidth r;
                 height = rHeight r;
                 dates = collectDates E (events st)
             in if dates = [] then st
                else
                  (let rangeStart = fst (paddedRange dates);
                       rangeEnd = snd (paddedRange dates);
                       leftMargin = (if isSplit st then SPLIT_VIEW_LABEL_WIDTH else MARGIN_left);
                       timelineWidth = width - leftMargin - MARGIN_right;
                       scale = (timelineWidth * zoom st) / real_of_int (rangeEnd - rangeStart);
                       totalTimelineWidth = real_of_int (rangeEnd - rangeStart) * scale;
                       maxPanX = width - leftMargin;
                       minPanX = - (totalTimelineWidth - leftMargin);
                       st1 = st \<lparr> panX := max minPanX (min maxPanX (panX st)) \<rparr>
                   in if isSplit st1 \<and> 0 < rowCount st1
                      then (let rowHeight = getRowHeight st1;
                                totalContentHeight = real (rowCount st1) * rowHeight;
                                maxPanY = 0;
                                minPanY = - (totalContentHeight - height + MARGIN_top + MARGIN_bottom)
                            in st1 \<lparr> panY := max minPanY (min maxPanY (panY st1)) \<rparr>)
                      else st1)))"

subsection \<open>setZoom\<close>

definition setZoom :: "engine \<Rightarrow> real \<Rightarrow> state \<Rightarrow> state" where
  "setZoom E newZoom st =
     (case svg st of
        None \<Rightarrow> st \<lparr> zoom := max 0.1 (min 10 newZoom) \<rparr>
      | Some r \<Rightarrow>
          (let viewportCenterX = rWidth r / 2;
               viewportCenterY = rHeight r / 2;
               oldZoom = zoom st;
               timelinePosAtCenter = viewportCenterX - panX st - MARGIN_left;
               relativePos = timelinePosAtCenter / oldZoom;
               oldRowHeight = getRowHeight st;
               st1 = st \<lparr> zoom := max 0.1 (min 10 newZoom) \<rparr>;
               newTimelinePosAtCenter = relativePos * zoom st1;
               st2 = st1 \<lparr> panX := viewportCenterX - newTimelinePosAtCenter - MARGIN_left \<rparr>;
               st3 = (if isSplit st2
                      then (let newRowHeight = getRowHeight st2
                            in if oldRowHeight \<noteq> newRowHeight
                               then (let rowAtCenter = (viewportCenterY - panY st2 - MARGIN_top) / oldRowHeight
                                     in st2 \<lparr> panY := viewportCenterY - MARGIN_top - rowAtCenter * newRowHeight \<rparr>)
                               else st2)
                      else st2)
           in constrainPan E st3))"

subsection \<open>The time axis of the render functions\<close>

text \<open>
  \<open>renderSingleTimeline\<close> and \<open>renderSplitTimeline\<close> compute the date range from the
  events they are given and today, then \<open>scale\<close> and \<open>axisStartX\<close>, and place a date at
  \<open>axisStartX + (date - startDate) * scale\<close>. They return early, drawing nothing, when no
  event has a valid date or the canvas is missing.
\<close>

definition renderRange :: "engine \<Rightarrow> event list \<Rightarrow> (int \<times> int) option" where
  "renderRange E es =
     (let dates = collectDates E es
      in if dates = [] then None else Some (paddedRange (dates @ [getTime (now E)])))"

definition leftMarginOf :: "state \<Rightarrow> real" where
  "leftMarginOf st = (if isSplit st then SPLIT_VIEW_LABEL_WIDTH else MARGIN_left)"

definition timeToX :: "engine \<Rightarrow> state \<Rightarrow> event list \<Rightarrow> real \<Rightarrow> real option" where
  "timeToX E st es date =
     (case svg st of
        None \<Rightarrow> None
      | Some r \<Rightarrow>
          (case renderRange E es of
             None \<Rightarrow> None
           | Some (rangeStart, rangeEnd) \<Rightarrow>
               (let timelineWidth = rWidth r - leftMarginOf st - MARGIN_right;
                    scale = (timelineWidth * zoom st) / real_of_int (rangeEnd - rangeStart);
                    axisStartX = leftMarginOf st + panX st
                in Some (axisStartX + (date - real_of_int rangeStart) * scale))))"

subsection \<open>Level assignment\<close>

text \<open>
  The objects \<open>{ event, x, x2, date }\<close>, \<open>{ event, x, x2, y, level }\<close> and
  \<open>{ event, x, x2, labelYOffset }\<close> of the source; the shared fields carry the prefix
  \<open>p_\<close>.
\<close>

record located =
  p_event :: event
  p_x :: real
  p_x2 :: real

record entry = located +
  p_date :: int

record position = located +
  p_y :: real
  p_level :: nat

record positioned = located +
  labelYOffset :: real

text \<open>
  The callback of \<open>events.map\<close> that computes \<open>{ event, x, x2, date }\<close>, or null for an
  event without a valid start date.
\<close>

definition toEntry :: "engine \<Rightarrow> int \<Rightarrow> real \<Rightarrow> real \<Rightarrow> event \<Rightarrow> entry option" where
  "toEntry E rangeStart axisStartX scale event =
     (case validTime E (orElse (evStartDate event) (computedDate event)) of
        None \<Rightarrow> None
      | Some eventDate \<Rightarrow>
          (let x = axisStartX + real_of_int (eventDate - rangeStart) * scale;
               x2 = (if truthy (evEndDate event) \<and> \<not> evIsOngoing event
                     then (case validTime E (evEndDate event) of
                             Some endEventDate \<Rightarrow> axisStartX + real_of_int (endEventDate - rangeStart) * scale
                           | None \<Rightarrow> x)
                     else x)
           in Some \<lparr> p_event = event, p_x = x, p_x2 = x2, p_date = eventDate \<rparr>))"

text \<open>\<open>events.map(...).filter(e => e !== null)\<close> followed by the stable sort on \<open>date\<close>.\<close>

definition eventsWithX :: "engine \<Rightarrow> int \<Rightarrow> real \<Rightarrow> real \<Rightarrow> event list \<Rightarrow> entry list" where
  "eventsWithX E rangeStart axisStartX scale es =
     sort_key p_date (List.map_filter (toEntry E rangeStart axisStartX scale) es)"

text \<open>
  One round of the placement loop: the event joins the first level that accepts it, or
  opens a new level after the last one.
\<close>

primrec placeInLevels :: "(entry list \<Rightarrow> bool) \<Rightarrow> entry \<Rightarrow> entry list list \<Rightarrow> entry list list" where
  "placeInLevels fits e [] = [[e]]"
| "placeInLevels fits e (level # levels) =
     (if fits level then (level @ [e]) # levels else level # placeInLevels fits e levels)"

definition conflictsWithDateLabel :: "(real \<times> real) list \<Rightarrow> real \<Rightarrow> real \<Rightarrow> bool" where
  "conflictsWithDateLabel dateLabelPositions x x2 =
     list_ex (\<lambda>(lx, lx2). \<not> (x2 + 30 < lx \<or> x - 30 > lx2)) dateLabelPositions"

text \<open>A level is never empty when it is read; the empty case stands for that.\<close>

definition assignLevelsToEvents :: "entry list \<Rightarrow> real \<Rightarrow> (real \<times> real) list \<Rightarrow> entry list list" where
  "assignLevelsToEvents entries MIN_SPACING dateLabelPositions =
     foldl (\<lambda>levels e.
        placeInLevels
          (\<lambda>level. case level of
                      [] \<Rightarrow> False
                    | _ # _ \<Rightarrow> p_x2 (last level) + MIN_SPACING < p_x e \<and>
                               \<not> conflictsWithDateLabel dateLabelPositions (p_x e) (p_x2 e))
          e levels) [] entries"

text \<open>\<open>fitsInLevelSingle\<close> and \<open>fitsInLevel\<close> are the same test with different spacing.\<close>

definition fitsInLevel :: "real \<Rightarrow> entry list \<Rightarrow> real \<Rightarrow> real \<Rightarrow> bool" where
  "fitsInLevel MIN_SPACING level x x2 =
     list_all (\<lambda>existing. x2 < p_x existing - MIN_SPACING \<or> x > p_x2 existing + MIN_SPACING) level"

definition assignLevelsFitting :: "real \<Rightarrow> entry list \<Rightarrow> entry list list" where
  "assignLevelsFitting MIN_SPACING entries =
     foldl (\<lambda>levels e. placeInLevels (\<lambda>level. fitsInLevel MIN_SPACING level (p_x e) (p_x2 e)) e levels)
       [] entries"

text \<open>\<open>levels.forEach((level, levelIndex) => level.forEach(... positions.push(...)))\<close>.\<close>

definition levelPositions :: "(nat \<Rightarrow> real) \<Rightarrow> entry list list \<Rightarrow> position list" where
  "levelPositions yOf levels =
     concat (map (\<lambda>(levelIndex, level).
                    map (\<lambda>e. \<lparr> p_event = p_event e, p_x = p_x e, p_x2 = p_x2 e,
                                p_y = yOf levelIndex, p_level = levelIndex \<rparr>) level)
                 (enumerate 0 levels))"

definition isPrimaryFor :: "jsstring \<Rightarrow> entry \<Rightarrow> bool" where
  "isPrimaryFor key e \<longleftrightarrow> Some key \<in> set (primaryEntities (p_event e))"

subsection \<open>calculateEventPositions\<close>

definition calculateEventPositions ::
  "engine \<Rightarrow> state \<Rightarrow> event list \<Rightarrow> int \<Rightarrow> int \<Rightarrow> real \<Rightarrow> real \<Rightarrow> real \<Rightarrow> (real \<times> real) list \<Rightarrow> position list" where
  "calculateEventPositions E st es rangeStart rangeEnd axisStartX scale axisY dateLabelPositions =
     (let LABEL_HEIGHT = 30;
          MIN_SPACING = 200;
          filteringByEntity = fEntity (filters st);
          entries = eventsWithX E rangeStart axisStartX scale es
      in if filteringByEntity \<noteq> []
         then
           (let primaryEvents = filter (isPrimaryFor filteringByEntity) entries;
                secondaryEvents = filter (\<lambda>e. \<not> isPrimaryFor filteringByEntity e) entries;
                primaryLevels = assignLevelsToEvents primaryEvents MIN_SPACING dateLabelPositions;
                secondaryLevels = assignLevelsToEvents secondaryEvents MIN_SPACING dateLabelPositions
            in levelPositions (\<lambda>levelIndex. axisY - real (levelIndex + 1) * LABEL_HEIGHT) primaryLevels @
               levelPositions (\<lambda>levelIndex. axisY + real (levelIndex + 1) * LABEL_HEIGHT) secondaryLevels)
         else
           (let levels = assignLevelsFitting MIN_SPACING entries
            in levelPositions
                 (\<lambda>levelIndex.
                    (let direction = (if levelIndex mod 2 = 0 then - 1 else 1);
                         offset = real (levelIndex div 2 + 2)
                     in axisY + direction * offset * LABEL_HEIGHT)) levels))"

subsection \<open>The row layout of renderSplitTimeline\<close>

text \<open>
  For one row \<open>key\<close> of the split view: the entries of the row's events, their partition
  into primary and secondary (all primary when splitting by goal), the levels of each
  part with spacing 80, and the list \<open>positioned\<close>.
\<close>

definition labelOffsets :: "(nat \<Rightarrow> real) \<Rightarrow> entry list list \<Rightarrow> positioned list" where
  "labelOffsets offsetOf levels =
     concat (map (\<lambda>(levelIndex, level).
                    map (\<lambda>e. \<lparr> p_event = p_event e, p_x = p_x e, p_x2 = p_x2 e,
                                labelYOffset = offsetOf levelIndex \<rparr>) level)
                 (enumerate 0 levels))"

definition splitRowLayout ::
  "engine \<Rightarrow> viewMode \<Rightarrow> jsstring \<Rightarrow> event list \<Rightarrow> int \<Rightarrow> real \<Rightarrow> real \<Rightarrow> positioned list" where
  "splitRowLayout E splitBy key rowEvents rangeStart axisStartX scale =
     (let entries = eventsWithX E rangeStart axisStartX scale rowEvents;
          primaryEvents = (if splitBy = Entity then filter (isPrimaryFor key) entries else entries);
          secondaryEvents = (if splitBy = Entity then filter (\<lambda>e. \<not> isPrimaryFor key e) entries else []);
          MIN_SPACING = 80;
          LABEL_HEIGHT = 30;
          primaryLevels = assignLevelsFitting MIN_SPACING primaryEvents;
          secondaryLevels = assignLevelsFitting MIN_SPACING secondaryEvents
      in labelOffsets (\<lambda>levelIndex. - (real levelIndex * LABEL_HEIGHT + 15)) primaryLevels @
         labelOffsets (\<lambda>levelIndex. real levelIndex * LABEL_HEIGHT + 20) secondaryLevels)"

section \<open>Auxiliary definitions\<close>

text \<open>The groups that every successful match of a pattern has set.\<close>

primrec must :: "regex \<Rightarrow> nat set" where
  "must (Atom a) = {}"
| "must (Seq a b) = must a \<union> must b"
| "must (Alt a b) = must a \<inter> must b"
| "must (Star a) = {}"
| "must (Group n a) = insert n (must a)"
| "must Bol = {}"
| "must Eol = {}"
| "must Eps = {}"

text \<open>
  An engine for closed examples: strings with a non-ASCII code unit are left as they are
  by lower-casing, today is 2 November 2026, and the Date constructor reads the ISO form
  \<open>YYYY-MM-DD\<close> as midnight UTC (local time is UTC), null as the epoch, and rejects
  every other string.
\<close>

definition daysFromCivil :: "int \<Rightarrow> int \<Rightarrow> int \<Rightarrow> int" where
  "daysFromCivil y m d =
     (let y' = (if m \<le> 2 then y - 1 else y);
          era = y' div 400;
          yoe = y' - era * 400;
          doy = (153 * (if m > 2 then m - 3 else m + 9) + 2) div 5 + d - 1;
          doe = yoe * 365 + yoe div 4 - yoe div 100 + doy
      in era * 146097 + doe - 719468)"

definition digitsVal :: "jsstring \<Rightarrow> nat" where
  "digitsVal ds = foldl (\<lambda>a d. 10 * a + (d - 48)) 0 ds"

definition isoDate :: "jsstring \<Rightarrow> jsdate option" where
  "isoDate s =
     (if length s = 10 \<and> s ! 4 = 45 \<and> s ! 7 = 45 \<and>
         list_all isDigit (take 4 s @ take 2 (drop 5 s) @ drop 8 s)
      then (let y = digitsVal (take 4 s);
                m = digitsVal (take 2 (drop 5 s));
                d = digitsVal (drop 8 s)
            in if 1 \<le> m \<and> m \<le> 12 \<and> 1 \<le> d \<and> d \<le> 31
               then Some \<lparr> getTime = daysFromCivil (int y) (int m) (int d) * 86400000,
                            getFullYear = int y, getMonth = m - 1, getDate = d \<rparr>
               else None)
      else None)"

definition exampleEngine :: engine where
  "exampleEngine =
     \<lparr> unicodeLower = (\<lambda>s. s),
       now = \<lparr> getTime = 1793577600000, getFullYear = 2026, getMonth = 10, getDate = 2 \<rparr>,
       newDate = (\<lambda>v. case v of
                         None \<Rightarrow> Some \<lparr> getTime = 0, getFullYear = 1970, getMonth = 0, getDate = 1 \<rparr>
                       | Some s \<Rightarrow> isoDate s) \<rparr>"

text \<open>
  The bounds that \<open>constrainPan\<close> computes for \<open>panX\<close> and \<open>panY\<close>, as
  \<open>(minPanX, maxPanX)\<close> and \<open>(minPanY, maxPanY)\<close>, for a state with a canvas and dates.
\<close>

definition panXRange :: "engine \<Rightarrow> state \<Rightarrow> rect \<Rightarrow> real \<times> real" where
  "panXRange E st r =
     (let dates = collectDates E (events st);
          rangeStart = fst (paddedRange dates);
          rangeEnd = snd (paddedRange dates);
          leftMargin = (if isSplit st then SPLIT_VIEW_LABEL_WIDTH else MARGIN_left);
          timelineWidth = rWidth r - leftMargin - MARGIN_right;
          scale = (timelineWidth * zoom st) / real_of_int (rangeEnd - rangeStart);
          totalTimelineWidth = real_of_int (rangeEnd - rangeStart) * scale
      in (- (totalTimelineWidth - leftMargin), rWidth r - leftMargin))"

definition panYRange :: "state \<Rightarrow> rect \<Rightarrow> real \<times> real" where
  "panYRange st r =
     (- (real (rowCount st) * getRowHeight st - rHeight r + MARGIN_top + MARGIN_bottom), 0)"

text \<open>Events and states for closed examples.\<close>

definition pointEvent :: "string \<Rightarrow> string \<Rightarrow> event" where
  "pointEvent name day =
     \<lparr> evId = str name, title = str name, goal = Some (str ''launch''),
       entities = Some [str ''team''], entity = None, secondaryEntities = Some [],
       evStartDate = Some (str day), evEndDate = None, evIsOngoing = False,
       computedDate = Some (str day) \<rparr>"

text \<open>The date fields that the data manager stores for a parse result.\<close>

definition parsedEvent :: "string \<Rightarrow> parseResult \<Rightarrow> event" where
  "parsedEvent name parsed =
     \<lparr> evId = str name, title = str name, goal = Some (str ''launch''),
       entities = Some [str ''team''], entity = None, secondaryEntities = Some [],
       evStartDate = orElse (Some (startDate parsed)) None,
       evEndDate = orElse (endDate parsed) None,
       evIsOngoing = isOngoing parsed,
       computedDate = orElse (Some (startDate parsed)) None \<rparr>"

definition exampleState :: "viewMode \<Rightarrow> real \<Rightarrow> real \<Rightarrow> event list \<Rightarrow> state" where
  "exampleState mode z px es =
     \<lparr> viewMode = mode, zoom = z, panX = px, panY = 0, events = es,
       filters = \<lparr> fSearch = [], fEntity = [], fGoal = [] \<rparr>,
       entityColors = Map.empty, isDragging = False, lastMouseX = 0, lastMouseY = 0,
       svg = Some \<lparr> rWidth = 1000, rHeight = 600 \<rparr> \<rparr>"

section \<open>Properties of the parser\<close>

text \<open>Unfolding rules for evaluating the parser on a given text.\<close>

lemmas js_defs = str_def isDigit_def isWhiteSpace_def asciiUpper_def asciiLower_def toLowerCase_def trim_def
  decimal.simps numStr_def parseInt_def jsAdd_def padStart2_def truthy_def numGe_def numLe_def numLt_def lookup_def

lemmas regex_defs = jsMatch_def seqs_def lit_def ws0_def ws1_def plus_def opt_def d4_def d1_def d2to4_def dash_def
  atomMatches_def canon_def

lemmas pattern_defs = MONTHS_def QUARTERS_def SEASONS_def monthAlt_def monthRangeYearsPattern_def
  monthRangePattern_def quarterRangePattern_def yearRangePattern_def fyPattern_def qPattern_def seasonPattern_def
  monthPattern_def vaguePatterns_def endPattern_def startPattern_def byYearPattern_def yearPattern_def

lemmas strategy_defs = parseRange_def parseFiscalYear_def parseQuarter_def parseSeason_def parseMonth_def
  parseVaguePeriod_def parseEndOfYear_def parseStartingIn_def parseYear_def strategy_def point_def tryBlock_def

subsection \<open>Groups set by a successful match\<close>

lemma starLoop_dom:
  assumes step: "\<And>k s c. step k s = Some c \<Longrightarrow> \<exists>s'. k s' = Some c \<and> dom (snd (snd s)) \<subseteq> dom (snd (snd s'))"
  shows "starLoop step k n s = Some c \<Longrightarrow> \<exists>s'. k s' = Some c \<and> dom (snd (snd s)) \<subseteq> dom (snd (snd s'))"
proof (induction n arbitrary: s)
  case 0
  then show ?case by (intro exI[of _ s]) simp
next
  case (Suc n)
  let ?k' = "\<lambda>s'. if length (fst (snd s')) < length (fst (snd s)) then starLoop step k n s' else None"
  show ?case
  proof (cases "step ?k' s")
    case None
    with Suc.prems have "k s = Some c" by simp
    then show ?thesis by blast
  next
    case (Some c')
    with Suc.prems have "c' = c" by simp
    with Some obtain s1 where s1: "?k' s1 = Some c" "dom (snd (snd s)) \<subseteq> dom (snd (snd s1))"
      using step by blast
    from s1(1) have "starLoop step k n s1 = Some c" by (simp split: if_splits)
    from Suc.IH[OF this] obtain s2 where "k s2 = Some c" "dom (snd (snd s1)) \<subseteq> dom (snd (snd s2))"
      by blast
    with s1(2) show ?thesis by blast
  qed
qed

lemma rmatch_dom:
  "rmatch ic r k s = Some c \<Longrightarrow>
   \<exists>s'. k s' = Some c \<and> must r \<union> dom (snd (snd s)) \<subseteq> dom (snd (snd s'))"
proof (induction r arbitrary: k s c)
  case (Atom a)
  from Atom obtain u us where "fst (snd s) = u # us" "k (Suc (fst s), us, snd (snd s)) = Some c"
    by (auto split: list.splits if_splits)
  then show ?case by (intro exI[of _ "(Suc (fst s), us, snd (snd s))"]) simp
next
  case (Seq a b)
  from Seq.prems have "rmatch ic a (rmatch ic b k) s = Some c" by simp
  from Seq.IH(1)[OF this] obtain s1 where
    s1: "rmatch ic b k s1 = Some c" "must a \<union> dom (snd (snd s)) \<subseteq> dom (snd (snd s1))" by blast
  from Seq.IH(2)[OF s1(1)] obtain s2 where
    "k s2 = Some c" "must b \<union> dom (snd (snd s1)) \<subseteq> dom (snd (snd s2))" by blast
  with s1(2) show ?case by (intro exI[of _ s2]) (simp, blast)
next
  case (Alt a b)
  show ?case
  proof (cases "rmatch ic a k s")
    case None
    with Alt.prems have "rmatch ic b k s = Some c" by simp
    from Alt.IH(2)[OF this] obtain s1 where
      "k s1 = Some c" "must b \<union> dom (snd (snd s)) \<subseteq> dom (snd (snd s1))" by blast
    then show ?thesis by (intro exI[of _ s1]) (simp, blast)
  next
    case (Some c')
    with Alt.prems have "rmatch ic a k s = Some c" by simp
    from Alt.IH(1)[OF this] obtain s1 where
      "k s1 = Some c" "must a \<union> dom (snd (snd s)) \<subseteq> dom (snd (snd s1))" by blast
    then show ?thesis by (intro exI[of _ s1]) (simp, blast)
  qed
next
  case (Star a)
  have "\<exists>s'. k s' = Some c \<and> dom (snd (snd s)) \<subseteq> dom (snd (snd s'))"
  proof (rule starLoop_dom)
    show "starLoop (rmatch ic a) k (length (fst (snd s))) s = Some c"
      using Star.prems by simp
  next
    fix k' s' c'
    assume "rmatch ic a k' s' = Some c'"
    from Star.IH[OF this] obtain s1 where
      "k' s1 = Some c'" "must a \<union> dom (snd (snd s')) \<subseteq> dom (snd (snd s1))" by blast
    then show "\<exists>s''. k' s'' = Some c' \<and> dom (snd (snd s')) \<subseteq> dom (snd (snd s''))"
      by (intro exI[of _ s1]) simp
  qed
  then show ?case by simp
next
  case (Group n a)
  let ?k' = "\<lambda>s'. k (fst s', fst (snd s'), (snd (snd s'))(n \<mapsto> take (fst s' - fst s) (fst (snd s))))"
  from Group.prems have "rmatch ic a ?k' s = Some c" by simp
  from Group.IH[OF this] obtain s1 where
    s1: "?k' s1 = Some c" "must a \<union> dom (snd (snd s)) \<subseteq> dom (snd (snd s1))" by blast
  define s2 where
    "s2 = (fst s1, fst (snd s1), (snd (snd s1))(n \<mapsto> take (fst s1 - fst s) (fst (snd s))))"
  have "dom (snd (snd s2)) = insert n (dom (snd (snd s1)))"
    unfolding s2_def snd_conv by simp
  with s1(2) have d: "must (Group n a) \<union> dom (snd (snd s)) \<subseteq> dom (snd (snd s2))"
    by auto
  from s1(1) have "k s2 = Some c"
    unfolding s2_def .
  with d show ?case by blast
next
  case Bol
  then have "k s = Some c" by (simp split: if_splits)
  then show ?case by (intro exI[of _ s]) simp
next
  case Eol
  then have "k s = Some c" by (simp split: if_splits)
  then show ?case by (intro exI[of _ s]) simp
next
  case Eps
  then have "k s = Some c" by simp
  then show ?case by (intro exI[of _ s]) simp
qed

lemma matchFrom_dom: "matchFrom ic r i t = Some c \<Longrightarrow> must r \<subseteq> dom c"
proof (induction t arbitrary: i)
  case Nil
  then show ?case using rmatch_dom[of ic r "\<lambda>s. Some (snd (snd s))" "(i, [], Map.empty)" c] by auto
next
  case (Cons u us)
  show ?case
  proof (cases "rmatch ic r (\<lambda>s. Some (snd (snd s))) (i, u # us, Map.empty)")
    case None
    with Cons show ?thesis by simp
  next
    case (Some c')
    with Cons.prems have "c' = c" by simp
    with Some show ?thesis using rmatch_dom[of ic r "\<lambda>s. Some (snd (snd s))" "(i, u # us, Map.empty)" c] by auto
  qed
qed

lemma jsMatch_group: "jsMatch ic r t = Some m \<Longrightarrow> n \<in> must r \<Longrightarrow> \<exists>g. m n = Some g"
  using matchFrom_dom[of ic r 0 t m] by (auto simp: jsMatch_def)

subsection \<open>parseRange\<close>

lemma parseRange_no_throw: "parseRange ul t \<noteq> Inl e"
proof -
  have a: "\<And>m. jsMatch True monthRangeYearsPattern t = Some m \<Longrightarrow> (\<exists>g. m 1 = Some g) \<and> (\<exists>g. m 3 = Some g)"
    by (auto intro!: jsMatch_group simp: monthRangeYearsPattern_def seqs_def)
  have b: "\<And>m. jsMatch True monthRangePattern t = Some m \<Longrightarrow> (\<exists>g. m 1 = Some g) \<and> (\<exists>g. m 2 = Some g)"
    by (auto intro!: jsMatch_group simp: monthRangePattern_def seqs_def)
  show ?thesis
    unfolding parseRange_def
    by (auto simp: Let_def split: option.splits dest!: a b)
qed

lemma parseRange_shape:
  "parseRange ul t = Inr (Some r) \<Longrightarrow> endDate r \<noteq> None \<and> \<not> isOngoing r"
  unfolding parseRange_def
  by (auto simp: Let_def split: option.splits if_splits)



subsection \<open>Results of the strategies are never the empty string\<close>

lemma parseFiscalYear_nonempty: "parseFiscalYear t = Some d \<Longrightarrow> d \<noteq> []"
  by (auto simp: parseFiscalYear_def Let_def str_def split: option.splits)

lemma parseQuarter_nonempty: "parseQuarter t = Some d \<Longrightarrow> d \<noteq> []"
  by (auto simp: parseQuarter_def Let_def str_def split: option.splits if_splits)

lemma parseSeasonLoop_nonempty: "parseSeasonLoop es t = Some d \<Longrightarrow> d \<noteq> []"
  by (induction es t rule: parseSeasonLoop.induct) (auto simp: Let_def str_def split: option.splits)

lemma parseMonthLoop_nonempty: "parseMonthLoop es t = Some d \<Longrightarrow> d \<noteq> []"
  by (induction es t rule: parseMonthLoop.induct) (auto simp: Let_def str_def split: option.splits)

lemma parseVagueLoop_nonempty: "parseVagueLoop ps t = Some d \<Longrightarrow> d \<noteq> []"
  by (induction ps t rule: parseVagueLoop.induct) (auto simp: Let_def str_def split: option.splits)

lemma parseEndOfYear_nonempty: "parseEndOfYear t = Some d \<Longrightarrow> d \<noteq> []"
  by (auto simp: parseEndOfYear_def Let_def str_def split: option.splits)

lemma parseStartingIn_nonempty: "parseStartingIn t = Some d \<Longrightarrow> d \<noteq> []"
  by (auto simp: parseStartingIn_def Let_def str_def split: option.splits)

lemma parseYear_nonempty: "parseYear t = Some d \<Longrightarrow> d \<noteq> []"
  by (auto simp: parseYear_def Let_def str_def split: option.splits if_splits)

lemmas strategies_nonempty = parseFiscalYear_nonempty parseQuarter_nonempty
  parseSeasonLoop_nonempty[of SEASONS, folded parseSeason_def]
  parseMonthLoop_nonempty[of MONTHS, folded parseMonth_def]
  parseVagueLoop_nonempty[of vaguePatterns, folded parseVaguePeriod_def]
  parseEndOfYear_nonempty parseStartingIn_nonempty parseYear_nonempty

lemma strategy_null_iff:
  assumes "\<And>d. result = Some d \<Longrightarrow> d \<noteq> []"
  shows "strategy result rest = Inr None \<longleftrightarrow> result = None \<and> rest = Inr None"
  using assms by (cases result) (auto simp: strategy_def truthy_def point_def)

lemma strategy_point_or_rest:
  "strategy result rest = rest \<or>
   (\<exists>d. strategy result rest = Inr (Some \<lparr> startDate = d, endDate = None, isOngoing = False \<rparr>))"
  by (cases result) (auto simp: strategy_def truthy_def point_def)

lemma strategies_on_empty:
  "parseRange ul [] = Inr None" "parseFiscalYear [] = None" "parseQuarter [] = None"
  "parseSeason [] = None" "parseMonth [] = None" "parseVaguePeriod [] = None"
  "parseEndOfYear [] = None" "parseStartingIn [] = None" "parseYear [] = None"
  by (simp_all add: strategy_defs pattern_defs regex_defs js_defs)

lemma chain_point:
  "tryBlock E text n = Inr None \<or>
   (\<exists>d. tryBlock E text n = Inr (Some \<lparr> startDate = d, endDate = None, isOngoing = False \<rparr>))"
proof -
  have base: "(case newDate E (Some text) of Some date \<Rightarrow> point (formatDate date) | None \<Rightarrow> Inr None) = Inr None \<or>
     (\<exists>d. (case newDate E (Some text) of Some date \<Rightarrow> point (formatDate date) | None \<Rightarrow> Inr None)
          = Inr (Some \<lparr> startDate = d, endDate = None, isOngoing = False \<rparr>))"
    by (auto simp: point_def split: option.splits)
  have step: "\<And>result rest. rest = Inr None \<or> (\<exists>d. rest = Inr (Some \<lparr> startDate = d, endDate = None, isOngoing = False \<rparr>))
     \<Longrightarrow> strategy result rest = Inr None \<or> (\<exists>d. strategy result rest = Inr (Some \<lparr> startDate = d, endDate = None, isOngoing = False \<rparr>))"
    using strategy_point_or_rest by metis
  show ?thesis
    unfolding tryBlock_def by (intro step base)
qed

lemma chain_null_iff:
  "tryBlock E text n = Inr None \<longleftrightarrow>
     parseFiscalYear n = None \<and> parseQuarter n = None \<and> parseSeason n = None \<and> parseMonth n = None \<and>
     parseVaguePeriod n = None \<and> parseEndOfYear n = None \<and> parseStartingIn n = None \<and>
     parseYear n = None \<and> newDate E (Some text) = None"
  unfolding tryBlock_def
  by (simp add: strategy_null_iff strategies_nonempty point_def split: option.splits)


lemma normalized_empty: "trim (toLowerCase ul []) = []"
  by (simp add: trim_def toLowerCase_def)

lemma empty_not_literal:
  "[] \<noteq> str ''ongoing''" "[] \<noteq> str ''continuous''" "[] \<noteq> str ''tbd''" "[] \<noteq> str ''indefinite''"
  by (simp_all add: str_def)

subsection \<open>The structure of parse\<close>

lemma parse_nonempty:
  assumes "text \<noteq> []" and "n = trim (toLowerCase (unicodeLower E) text)"
  shows "parse E text =
     (if n = str ''ongoing'' \<or> n = str ''continuous'' \<or> n = str ''tbd'' \<or> n = str ''indefinite''
      then Inr (Some \<lparr> startDate = formatDate (now E), endDate = None, isOngoing = True \<rparr>)
      else (case parseRange (unicodeLower E) n of
              Inl e \<Rightarrow> Inl e
            | Inr (Some rangeResult) \<Rightarrow> Inr (Some rangeResult)
            | Inr None \<Rightarrow> tryBlock E text n))"
  using assms(1) unfolding assms(2) by (simp add: parse_def Let_def)

text \<open>The ways \<open>parse\<close> produces its result.\<close>

lemma parse_cases [consumes 1, case_names empty ongoing range single]:
  assumes n: "n = trim (toLowerCase (unicodeLower E) text)"
  obtains (empty) "text = []" "parse E text = Inr None"
    | (ongoing) "text \<noteq> []"
        "n = str ''ongoing'' \<or> n = str ''continuous'' \<or> n = str ''tbd'' \<or> n = str ''indefinite''"
        "parse E text = Inr (Some \<lparr> startDate = formatDate (now E), endDate = None, isOngoing = True \<rparr>)"
    | (range) r where "text \<noteq> []"
        "\<not> (n = str ''ongoing'' \<or> n = str ''continuous'' \<or> n = str ''tbd'' \<or> n = str ''indefinite'')"
        "parseRange (unicodeLower E) n = Inr (Some r)" "parse E text = Inr (Some r)"
    | (single) "text \<noteq> []"
        "\<not> (n = str ''ongoing'' \<or> n = str ''continuous'' \<or> n = str ''tbd'' \<or> n = str ''indefinite'')"
        "parseRange (unicodeLower E) n = Inr None" "parse E text = tryBlock E text n"
proof (cases "text = []")
  case True
  then have "parse E text = Inr None" by (simp add: parse_def)
  with True show ?thesis by (rule empty)
next
  case False
  note unfold = parse_nonempty[OF False n]
  show ?thesis
  proof (cases "n = str ''ongoing'' \<or> n = str ''continuous'' \<or> n = str ''tbd'' \<or> n = str ''indefinite''")
    case True
    with unfold have "parse E text = Inr (Some \<lparr> startDate = formatDate (now E), endDate = None, isOngoing = True \<rparr>)"
      by (simp only: if_True)
    with False True show ?thesis by (rule ongoing)
  next
    case notlit: False
    with unfold have u: "parse E text = (case parseRange (unicodeLower E) n of
              Inl e \<Rightarrow> Inl e
            | Inr (Some rangeResult) \<Rightarrow> Inr (Some rangeResult)
            | Inr None \<Rightarrow> tryBlock E text n)"
      by (simp only: if_False)
    show ?thesis
    proof (cases "parseRange (unicodeLower E) n")
      case (Inl e)
      then show ?thesis using parseRange_no_throw by blast
    next
      case (Inr v)
      show ?thesis
      proof (cases v)
        case None
        with Inr u have "parse E text = tryBlock E text n" by simp
        with False notlit Inr None show ?thesis by (intro single) simp_all
      next
        case (Some r)
        with Inr u have "parse E text = Inr (Some r)" by simp
        with False notlit Inr Some show ?thesis by (intro range[of r]) simp_all
      qed
    qed
  qed
qed

subsection \<open>The parser on given texts\<close>

lemma parse_eval_Q1:
  "parse E (str ''Q1 2026'') =
     Inr (Some \<lparr> startDate = str ''2026-01-01'', endDate = None, isOngoing = False \<rparr>)"
  by (simp add: parse_def strategy_defs pattern_defs regex_defs js_defs)

lemma parse_eval_Q2:
  "parse E (str ''Q2 2026'') =
     Inr (Some \<lparr> startDate = str ''2026-04-01'', endDate = None, isOngoing = False \<rparr>)"
  by (simp add: parse_def strategy_defs pattern_defs regex_defs js_defs)

lemma parse_eval_Q3:
  "parse E (str ''Q3 2026'') =
     Inr (Some \<lparr> startDate = str ''2026-07-01'', endDate = None, isOngoing = False \<rparr>)"
  by (simp add: parse_def strategy_defs pattern_defs regex_defs js_defs)

lemma parse_eval_Q4:
  "parse E (str ''Q4 2026'') =
     Inr (Some \<lparr> startDate = str ''2026-10-01'', endDate = None, isOngoing = False \<rparr>)"
  by (simp add: parse_def strategy_defs pattern_defs regex_defs js_defs)

lemma parse_eval_early:
  "parse E (str ''early-2027'') =
     Inr (Some \<lparr> startDate = str ''2027-02-01'', endDate = None, isOngoing = False \<rparr>)"
  by (simp add: parse_def strategy_defs pattern_defs regex_defs js_defs)

lemma parse_eval_mid:
  "parse E (str ''mid-2027'') =
     Inr (Some \<lparr> startDate = str ''2027-07-01'', endDate = None, isOngoing = False \<rparr>)"
  by (simp add: parse_def strategy_defs pattern_defs regex_defs js_defs)

lemma parse_eval_late:
  "parse E (str ''late-2027'') =
     Inr (Some \<lparr> startDate = str ''2027-10-01'', endDate = None, isOngoing = False \<rparr>)"
  by (simp add: parse_def strategy_defs pattern_defs regex_defs js_defs)

lemma parseQuarter_eval_q5: "parseQuarter (str ''q5 2026'') = None"
  by (simp add: strategy_defs pattern_defs regex_defs js_defs)

lemma parseYear_eval_q5: "parseYear (str ''q5 2026'') = Some (str ''2026-07-01'')"
  by (simp add: strategy_defs pattern_defs regex_defs js_defs)

lemma parse_eval_q5:
  "parse E (str ''q5 2026'') =
     Inr (Some \<lparr> startDate = str ''2026-07-01'', endDate = None, isOngoing = False \<rparr>)"
  by (simp add: parse_def strategy_defs pattern_defs regex_defs js_defs)

lemma parse_eval_april_june:
  "parse E (str ''April-June 2026'') =
     Inr (Some \<lparr> startDate = str ''2026-04-01'', endDate = Some (str ''2026-06-28''),
                  isOngoing = False \<rparr>)"
  by (simp add: parse_def strategy_defs pattern_defs regex_defs js_defs)

lemma parse_eval_reversed:
  "parse E (str ''2027-2026'') =
     Inr (Some \<lparr> startDate = str ''2027-01-01'', endDate = Some (str ''2026-12-31''),
                  isOngoing = False \<rparr>)"
  by (simp add: parse_def strategy_defs pattern_defs regex_defs js_defs)

lemma parse_eval_not_a_date: "parse exampleEngine (str ''not a date at all'') = Inr None"
  by (simp add: parse_def strategy_defs pattern_defs regex_defs js_defs exampleEngine_def isoDate_def)

lemma exampleEngine_rejects_empty: "newDate exampleEngine (Some []) = None"
  by (simp add: exampleEngine_def isoDate_def)

section \<open>Claims about the parser\<close>

text \<open>
  C1. The claim: \<open>Q<n> <year>\<close> parses to day 1 of the quarter's representative month
  (February, May, August, November), and \<open>parse("Q1 2026")\<close> has \<open>startDate\<close>
  \<open>2026-02-01\<close>. What the code computes: \<open>parseQuarter\<close> prints the entry of \<open>QUARTERS\<close>,
  a zero-based month index, as the month number, so the four quarters of 2026 come out as
  the first of January, April, July and October.
\<close>

theorem parse_quarter_prints_month_index:
  "parse E (str ''Q1 2026'') =
     Inr (Some \<lparr> startDate = str ''2026-01-01'', endDate = None, isOngoing = False \<rparr>) \<and>
   parse E (str ''Q2 2026'') =
     Inr (Some \<lparr> startDate = str ''2026-04-01'', endDate = None, isOngoing = False \<rparr>) \<and>
   parse E (str ''Q3 2026'') =
     Inr (Some \<lparr> startDate = str ''2026-07-01'', endDate = None, isOngoing = False \<rparr>) \<and>
   parse E (str ''Q4 2026'') =
     Inr (Some \<lparr> startDate = str ''2026-10-01'', endDate = None, isOngoing = False \<rparr>)"
  using parse_eval_Q1 parse_eval_Q2 parse_eval_Q3 parse_eval_Q4 by blast

text \<open>
  C4. For every string, \<open>parse\<close> raises no exception, and its result is null exactly when
  the text is none of the ongoing literals, no strategy (ranges, fiscal year, quarter,
  season, month, vague period, end of year, starting in, year) returns a date, and the
  Date constructor rejects the raw text. The empty string is returned as null before any
  of this is tried; the hypothesis says that the engine's Date constructor rejects the
  empty string, as every engine does.
\<close>

theorem parse_never_throws_null_only_on_failure:
  assumes "newDate E (Some []) = None"
  shows "(\<exists>v. parse E text = Inr v) \<and>
         (parse E text = Inr None \<longleftrightarrow>
            (let normalized = trim (toLowerCase (unicodeLower E) text)
             in normalized \<noteq> str ''ongoing'' \<and> normalized \<noteq> str ''continuous'' \<and>
                normalized \<noteq> str ''tbd'' \<and> normalized \<noteq> str ''indefinite'' \<and>
                parseRange (unicodeLower E) normalized = Inr None \<and>
                parseFiscalYear normalized = None \<and> parseQuarter normalized = None \<and>
                parseSeason normalized = None \<and> parseMonth normalized = None \<and>
                parseVaguePeriod normalized = None \<and> parseEndOfYear normalized = None \<and>
                parseStartingIn normalized = None \<and> parseYear normalized = None \<and>
                newDate E (Some text) = None))"
proof -
  define n where "n = trim (toLowerCase (unicodeLower E) text)"
  have "(\<exists>v. parse E text = Inr v) \<and>
        (parse E text = Inr None \<longleftrightarrow>
           n \<noteq> str ''ongoing'' \<and> n \<noteq> str ''continuous'' \<and> n \<noteq> str ''tbd'' \<and> n \<noteq> str ''indefinite'' \<and>
           parseRange (unicodeLower E) n = Inr None \<and>
           parseFiscalYear n = None \<and> parseQuarter n = None \<and> parseSeason n = None \<and>
           parseMonth n = None \<and> parseVaguePeriod n = None \<and> parseEndOfYear n = None \<and>
           parseStartingIn n = None \<and> parseYear n = None \<and> newDate E (Some text) = None)"
    using n_def
  proof (cases rule: parse_cases)
    case empty
    then have "n = []" by (simp add: n_def normalized_empty)
    with empty assms show ?thesis
      by (simp add: strategies_on_empty empty_not_literal)
  next
    case ongoing
    then show ?thesis by auto
  next
    case (range r)
    then show ?thesis by simp
  next
    case single
    with chain_point[of E "text" n] chain_null_iff[of E "text" n] show ?thesis by auto
  qed
  then show ?thesis by (simp only: Let_def n_def)
qed


theorem parse_never_throws_null_only_on_failure_witness:
  "newDate exampleEngine (Some []) = None \<and>
   parse exampleEngine (str ''not a date at all'') = Inr None \<and>
   (let normalized = trim (toLowerCase (unicodeLower exampleEngine) (str ''not a date at all''))
    in parseRange (unicodeLower exampleEngine) normalized = Inr None \<and>
       parseFiscalYear normalized = None \<and> parseQuarter normalized = None \<and>
       parseSeason normalized = None \<and> parseMonth normalized = None \<and>
       parseVaguePeriod normalized = None \<and> parseEndOfYear normalized = None \<and>
       parseStartingIn normalized = None \<and> parseYear normalized = None \<and>
       newDate exampleEngine (Some (str ''not a date at all'')) = None)"
  using parse_never_throws_null_only_on_failure
          [OF exampleEngine_rejects_empty, of "str ''not a date at all''"]
        parse_eval_not_a_date exampleEngine_rejects_empty
  by (simp add: Let_def)

text \<open>
  C5. The claim: \<open>early-<year>\<close>, \<open>mid-<year>\<close> and \<open>late-<year>\<close> parse to the first of
  March, July and November. What the code computes for 2027: \<open>parseVaguePeriod\<close> prints
  its table entries 2, 7 and 10 as month numbers, so \<open>mid-2027\<close> is the first of July as
  claimed, but \<open>early-2027\<close> is the first of February and \<open>late-2027\<close> the first of October.
\<close>

theorem parse_vague_period_months:
  "parse E (str ''early-2027'') =
     Inr (Some \<lparr> startDate = str ''2027-02-01'', endDate = None, isOngoing = False \<rparr>) \<and>
   parse E (str ''mid-2027'') =
     Inr (Some \<lparr> startDate = str ''2027-07-01'', endDate = None, isOngoing = False \<rparr>) \<and>
   parse E (str ''late-2027'') =
     Inr (Some \<lparr> startDate = str ''2027-10-01'', endDate = None, isOngoing = False \<rparr>)"
  using parse_eval_early parse_eval_mid parse_eval_late by blast

text \<open>
  C8. Every non-null result of \<open>parse\<close> is exactly one of a point (no end date, not
  ongoing), a range (an end date, not ongoing) or ongoing (ongoing, no end date); in
  particular an ongoing result has no end date.
\<close>

theorem parse_result_kind:
  assumes "parse E text = Inr (Some r)"
  shows "(let isPoint = (endDate r = None \<and> \<not> isOngoing r);
              isRange = (endDate r \<noteq> None \<and> \<not> isOngoing r);
              ongoing = (isOngoing r \<and> endDate r = None)
          in (isPoint \<and> \<not> isRange \<and> \<not> ongoing) \<or>
             (\<not> isPoint \<and> isRange \<and> \<not> ongoing) \<or>
             (\<not> isPoint \<and> \<not> isRange \<and> ongoing)) \<and>
         (isOngoing r \<longrightarrow> endDate r = None)"
proof -
  define n where "n = trim (toLowerCase (unicodeLower E) text)"
  have "(endDate r = None \<and> \<not> isOngoing r) \<or> (endDate r \<noteq> None \<and> \<not> isOngoing r) \<or>
        (isOngoing r \<and> endDate r = None)"
    using n_def
  proof (cases rule: parse_cases)
    case empty
    with assms show ?thesis by simp
  next
    case ongoing
    with assms show ?thesis by auto
  next
    case (range r')
    with assms have "r' = r" by simp
    with range parseRange_shape[of "unicodeLower E" n r] show ?thesis by simp
  next
    case single
    with assms chain_point[of E "text" n] show ?thesis by auto
  qed
  then show ?thesis
    unfolding Let_def by (cases "isOngoing r"; cases "endDate r = None"; simp)
qed


theorem parse_result_kind_witness:
  "parse exampleEngine (str ''April-June 2026'') =
     Inr (Some \<lparr> startDate = str ''2026-04-01'', endDate = Some (str ''2026-06-28''),
                  isOngoing = False \<rparr>) \<and>
   endDate \<lparr> startDate = str ''2026-04-01'', endDate = Some (str ''2026-06-28''),
             isOngoing = False \<rparr> \<noteq> None \<and>
   \<not> isOngoing \<lparr> startDate = str ''2026-04-01'', endDate = Some (str ''2026-06-28''),
                 isOngoing = False \<rparr>"
  using parse_result_kind[OF parse_eval_april_june[of exampleEngine]]
        parse_eval_april_june[of exampleEngine]
  by (simp add: Let_def)

text \<open>
  C10. The text \<open>q5 2026\<close> is not rejected: the quarter strategy returns null for the
  quarter number 5, the year strategy then finds the year 2026, and \<open>parse\<close> returns the
  first of July 2026 as a point.
\<close>

theorem parse_q5_falls_back_to_year:
  "parseQuarter (str ''q5 2026'') = None \<and>
   parseYear (str ''q5 2026'') = Some (str ''2026-07-01'') \<and>
   parse E (str ''q5 2026'') =
     Inr (Some \<lparr> startDate = str ''2026-07-01'', endDate = None, isOngoing = False \<rparr>)"
  using parseQuarter_eval_q5 parseYear_eval_q5 parse_eval_q5 by blast

theorem parse_q5_falls_back_to_year_witness:
  "parse exampleEngine (str ''q5 2026'') =
     Inr (Some \<lparr> startDate = str ''2026-07-01'', endDate = None, isOngoing = False \<rparr>)"
  using parse_q5_falls_back_to_year[of exampleEngine] by blast

section \<open>Properties of the renderer\<close>

subsection \<open>constrainPan\<close>

lemma clamp_idem: "max lo (min hi (max lo (min hi x))) = max lo (min hi (x::real))"
  by (simp add: max_def min_def)

lemma isSplit_pan [simp]: "isSplit (st\<lparr>panX := a\<rparr>) = isSplit st" "isSplit (st\<lparr>panY := b\<rparr>) = isSplit st"
  by (simp_all add: isSplit_def)

lemma rowCount_pan [simp]: "rowCount (st\<lparr>panX := a\<rparr>) = rowCount st" "rowCount (st\<lparr>panY := b\<rparr>) = rowCount st"
  by (simp_all add: rowCount_def)

lemma getRowHeight_pan [simp]: "getRowHeight (st\<lparr>panX := a\<rparr>) = getRowHeight st" "getRowHeight (st\<lparr>panY := b\<rparr>) = getRowHeight st"
  by (simp_all add: getRowHeight_def)

lemma panXRange_pan [simp]: "panXRange E (st\<lparr>panX := a\<rparr>) r = panXRange E st r" "panXRange E (st\<lparr>panY := b\<rparr>) r = panXRange E st r"
  by (simp_all add: panXRange_def)

lemma panYRange_pan [simp]: "panYRange (st\<lparr>panX := a\<rparr>) r = panYRange st r" "panYRange (st\<lparr>panY := b\<rparr>) r = panYRange st r"
  by (simp_all add: panYRange_def)

lemma constrainPan_alt:
  "constrainPan E st =
     (case svg st of
        None \<Rightarrow> st
      | Some r \<Rightarrow>
          if events st = [] \<or> collectDates E (events st) = [] then st
          else if isSplit st \<and> 0 < rowCount st
          then st \<lparr> panX := max (fst (panXRange E st r)) (min (snd (panXRange E st r)) (panX st)),
                    panY := max (fst (panYRange st r)) (min (snd (panYRange st r)) (panY st)) \<rparr>
          else st \<lparr> panX := max (fst (panXRange E st r)) (min (snd (panXRange E st r)) (panX st)) \<rparr>)"
  unfolding constrainPan_def panXRange_def panYRange_def
  by (simp add: Let_def split: option.splits)

lemma constrainPan_noop:
  "svg st = None \<or> events st = [] \<or> collectDates E (events st) = [] \<Longrightarrow> constrainPan E st = st"
  by (auto simp: constrainPan_alt split: option.splits)

lemma constrainPan_both:
  assumes "svg st = Some r" "events st \<noteq> []" "collectDates E (events st) \<noteq> []"
    and "isSplit st" "0 < rowCount st"
  shows "constrainPan E st =
     st \<lparr> panX := max (fst (panXRange E st r)) (min (snd (panXRange E st r)) (panX st)),
          panY := max (fst (panYRange st r)) (min (snd (panYRange st r)) (panY st)) \<rparr>"
  using assms by (simp add: constrainPan_alt)

lemma constrainPan_horizontal:
  assumes "svg st = Some r" "events st \<noteq> []" "collectDates E (events st) \<noteq> []"
    and "\<not> (isSplit st \<and> 0 < rowCount st)"
  shows "constrainPan E st =
     st \<lparr> panX := max (fst (panXRange E st r)) (min (snd (panXRange E st r)) (panX st)) \<rparr>"
proof -
  from assms(4) have "(if isSplit st \<and> 0 < rowCount st then a else b) = b" for a b :: state
    by (rule if_not_P)
  with assms(1-3) show ?thesis
    unfolding constrainPan_alt by simp
qed

subsection \<open>setZoom\<close>

lemma leftMarginOf_pan_zoom [simp]:
  "leftMarginOf (st\<lparr>zoom := z\<rparr>) = leftMarginOf st" "leftMarginOf (st\<lparr>panX := a\<rparr>) = leftMarginOf st"
  by (simp_all add: leftMarginOf_def isSplit_def)

lemma isSplit_zoom [simp]: "isSplit (st\<lparr>zoom := z\<rparr>) = isSplit st"
  by (simp add: isSplit_def)

lemma setZoom_single_unclamped:
  assumes svg: "svg st = Some r"
    and single: "viewMode st = Single"
    and inside: "events st = [] \<or> collectDates E (events st) = [] \<or>
       (fst (panXRange E (st\<lparr>zoom := z'\<rparr>) r) \<le> p' \<and> p' \<le> snd (panXRange E (st\<lparr>zoom := z'\<rparr>) r))"
    and z': "z' = max 0.1 (min 10 newZoom)"
    and p': "p' = rWidth r / 2 - (rWidth r / 2 - panX st - MARGIN_left) / zoom st * z' - MARGIN_left"
  shows "setZoom E newZoom st = st\<lparr>zoom := z', panX := p'\<rparr>"
proof -
  let ?st3 = "st\<lparr>zoom := z', panX := p'\<rparr>"
  have ns: "\<not> isSplit st" using single by (simp add: isSplit_def)
  have 1: "setZoom E newZoom st = constrainPan E ?st3"
    using svg ns by (simp add: setZoom_def Let_def z' p')
  have 2: "constrainPan E ?st3 = ?st3"
  proof (cases "events st = [] \<or> collectDates E (events st) = []")
    case True
    then show ?thesis by (intro constrainPan_noop) auto
  next
    case False
    with inside have b: "fst (panXRange E (st\<lparr>zoom := z'\<rparr>) r) \<le> p'" "p' \<le> snd (panXRange E (st\<lparr>zoom := z'\<rparr>) r)"
      by auto
    have "constrainPan E ?st3 =
       ?st3\<lparr>panX := max (fst (panXRange E ?st3 r)) (min (snd (panXRange E ?st3 r)) (panX ?st3))\<rparr>"
      using svg False ns by (intro constrainPan_horizontal) simp_all
    also have "\<dots> = ?st3"
      using b by (simp add: max_def min_def)
    finally show ?thesis .
  qed
  from 1 2 show ?thesis by simp
qed

subsection \<open>Placement keeps the entries\<close>

lemma placeInLevels_set: "set (concat (placeInLevels fits e ls)) = insert e (set (concat ls))"
  by (induction ls) auto

lemma placeInLevels_nonempty: "\<forall>l\<in>set ls. l \<noteq> [] \<Longrightarrow> \<forall>l\<in>set (placeInLevels fits e ls). l \<noteq> []"
  by (induction ls) auto

lemma foldl_place_set:
  "set (concat (foldl (\<lambda>levels e. placeInLevels (fits e) e levels) ls es)) = set (concat ls) \<union> set es"
proof (induction es arbitrary: ls)
  case Nil
  then show ?case by simp
next
  case (Cons e es)
  have "set (concat (foldl (\<lambda>levels e. placeInLevels (fits e) e levels) ls (e # es))) =
        set (concat (placeInLevels (fits e) e ls)) \<union> set es"
    using Cons.IH[of "placeInLevels (fits e) e ls"] by simp
  also have "\<dots> = insert e (set (concat ls)) \<union> set es"
    by (simp only: placeInLevels_set)
  finally show ?case by simp
qed

lemma assignLevelsFitting_set: "set (concat (assignLevelsFitting S es)) = set es"
  unfolding assignLevelsFitting_def using foldl_place_set[of _ "[]" es] by simp

lemma assignLevelsToEvents_set: "set (concat (assignLevelsToEvents es S labels)) = set es"
  unfolding assignLevelsToEvents_def using foldl_place_set[of _ "[]" es] by simp

subsection \<open>Levels filled by the test against every member\<close>

lemma placeInLevels_fitting:
  assumes "\<forall>l\<in>set ls. sorted_wrt (\<lambda>a b. p_x2 b < p_x a - S \<or> p_x b > p_x2 a + S) l"
  shows "\<forall>l\<in>set (placeInLevels (\<lambda>level. fitsInLevel S level (p_x e) (p_x2 e)) e ls).
           sorted_wrt (\<lambda>a b. p_x2 b < p_x a - S \<or> p_x b > p_x2 a + S) l"
  using assms by (induction ls) (auto simp: sorted_wrt_append fitsInLevel_def list_all_iff)

lemma foldl_fitting:
  assumes "\<forall>l\<in>set ls. sorted_wrt (\<lambda>a b. p_x2 b < p_x a - S \<or> p_x b > p_x2 a + S) l"
  shows "\<forall>l\<in>set (foldl (\<lambda>levels e. placeInLevels (\<lambda>level. fitsInLevel S level (p_x e) (p_x2 e)) e levels) ls es).
           sorted_wrt (\<lambda>a b. p_x2 b < p_x a - S \<or> p_x b > p_x2 a + S) l"
  using assms
proof (induction es arbitrary: ls)
  case Nil
  then show ?case by simp
next
  case (Cons e es)
  from Cons.IH[OF placeInLevels_fitting[OF Cons.prems]] show ?case by simp
qed

lemma assignLevelsFitting_separated:
  "\<forall>l\<in>set (assignLevelsFitting S es). sorted_wrt (\<lambda>a b. p_x2 b < p_x a - S \<or> p_x b > p_x2 a + S) l"
  unfolding assignLevelsFitting_def by (rule foldl_fitting) simp

subsection \<open>Levels filled by the test against the last member\<close>

lemma sorted_wrt_last:
  assumes "sorted_wrt P l" "a \<in> set (butlast l)"
  shows "P a (last l)"
proof -
  from assms(2) have "l \<noteq> []" by auto
  then have "l = butlast l @ [last l]" by simp
  with assms(1) have "sorted_wrt P (butlast l @ [last l])" by simp
  with assms(2) show ?thesis by (simp add: sorted_wrt_append)
qed

lemma chain_reaches_all:
  assumes l: "l \<noteq> []" "sorted_wrt (\<lambda>a b. p_x2 a + S < p_x b) l"
    and last: "p_x2 (last l) + S < p_x e"
    and below: "\<forall>a\<in>set l. p_x a \<le> p_x e"
  shows "\<forall>a\<in>set l. p_x2 a + S < p_x e"
proof
  fix a assume a: "a \<in> set l"
  from l(1) have split: "l = butlast l @ [last l]" by simp
  show "p_x2 a + S < p_x e"
  proof (cases "a \<in> set (butlast l)")
    case True
    from sorted_wrt_last[OF l(2) True] have "p_x2 a + S < p_x (last l)" .
    moreover from l(1) below have "p_x (last l) \<le> p_x e" by simp
    ultimately show ?thesis by simp
  next
    case False
    have "set l = set (butlast l) \<union> {last l}"
      by (subst split) simp
    with a False have "a = last l" by simp
    with last show ?thesis by simp
  qed
qed

lemma placeInLevels_last:
  assumes "\<forall>l\<in>set ls. l \<noteq> [] \<and> sorted_wrt (\<lambda>a b. p_x2 a + S < p_x b) l"
    and "\<forall>l\<in>set ls. \<forall>a\<in>set l. p_x a \<le> p_x e"
  shows "\<forall>l\<in>set (placeInLevels
            (\<lambda>level. case level of [] \<Rightarrow> False
                      | _ # _ \<Rightarrow> p_x2 (last level) + S < p_x e \<and> C) e ls).
           l \<noteq> [] \<and> sorted_wrt (\<lambda>a b. p_x2 a + S < p_x b) l"
  using assms
proof (induction ls)
  case Nil
  then show ?case by simp
next
  case (Cons l ls)
  let ?fits = "\<lambda>level. case level of [] \<Rightarrow> False | _ # _ \<Rightarrow> p_x2 (last level) + S < p_x e \<and> C"
  from Cons.prems have l: "l \<noteq> []" "sorted_wrt (\<lambda>a b. p_x2 a + S < p_x b) l"
    and below: "\<forall>a\<in>set l. p_x a \<le> p_x e"
    and rest: "\<forall>l\<in>set ls. l \<noteq> [] \<and> sorted_wrt (\<lambda>a b. p_x2 a + S < p_x b) l"
              "\<forall>l\<in>set ls. \<forall>a\<in>set l. p_x a \<le> p_x e"
    by simp_all
  from l(1) have fits_iff: "?fits l \<longleftrightarrow> p_x2 (last l) + S < p_x e \<and> C"
    by (cases l) simp_all
  show ?case
  proof (cases "?fits l")
    case True
    then have placed: "placeInLevels ?fits e (l # ls) = (l @ [e]) # ls" by simp
    from True fits_iff have "p_x2 (last l) + S < p_x e" by simp
    from chain_reaches_all[OF l this below] have "\<forall>a\<in>set l. p_x2 a + S < p_x e" .
    with l(2) have "sorted_wrt (\<lambda>a b. p_x2 a + S < p_x b) (l @ [e])"
      by (simp add: sorted_wrt_append)
    with rest(1) show ?thesis unfolding placed by simp
  next
    case False
    then have placed: "placeInLevels ?fits e (l # ls) = l # placeInLevels ?fits e ls" by simp
    from Cons.IH[OF rest] l show ?thesis unfolding placed by simp
  qed
qed

lemma foldl_last:
  assumes "\<forall>l\<in>set ls. l \<noteq> [] \<and> sorted_wrt (\<lambda>a b. p_x2 a + S < p_x b) l"
    and "\<forall>l\<in>set ls. \<forall>a\<in>set l. \<forall>e\<in>set es. p_x a \<le> p_x e"
    and "sorted_wrt (\<lambda>a b. p_x a \<le> p_x b) es"
  shows "\<forall>l\<in>set (foldl (\<lambda>levels e.
            placeInLevels
              (\<lambda>level. case level of [] \<Rightarrow> False
                        | _ # _ \<Rightarrow> p_x2 (last level) + S < p_x e \<and> C e)
              e levels) ls es).
           l \<noteq> [] \<and> sorted_wrt (\<lambda>a b. p_x2 a + S < p_x b) l"
  using assms
proof (induction es arbitrary: ls)
  case Nil
  then show ?case by simp
next
  case (Cons e es)
  let ?ls' = "placeInLevels (\<lambda>level. case level of [] \<Rightarrow> False
                        | _ # _ \<Rightarrow> p_x2 (last level) + S < p_x e \<and> C e) e ls"
  from Cons.prems(2) have b0: "\<forall>l\<in>set ls. \<forall>a\<in>set l. p_x a \<le> p_x e" by simp
  from Cons.prems(2) have b1: "\<forall>l\<in>set ls. \<forall>a\<in>set l. \<forall>e'\<in>set es. p_x a \<le> p_x e'" by simp
  from Cons.prems(3) have s0: "\<forall>e'\<in>set es. p_x e \<le> p_x e'"
    and s1: "sorted_wrt (\<lambda>a b. p_x a \<le> p_x b) es" by simp_all
  have inv: "\<forall>l\<in>set ?ls'. l \<noteq> [] \<and> sorted_wrt (\<lambda>a b. p_x2 a + S < p_x b) l"
    by (rule placeInLevels_last[OF Cons.prems(1) b0])
  have mem: "a = e \<or> (\<exists>l'\<in>set ls. a \<in> set l')" if "l \<in> set ?ls'" "a \<in> set l" for l a
  proof -
    from that have "a \<in> set (concat ?ls')" by auto
    then have "a \<in> insert e (set (concat ls))" by (simp only: placeInLevels_set)
    then show ?thesis by auto
  qed
  have below: "\<forall>l\<in>set ?ls'. \<forall>a\<in>set l. \<forall>e'\<in>set es. p_x a \<le> p_x e'"
  proof (intro ballI)
    fix l a e' assume "l \<in> set ?ls'" "a \<in> set l" and e': "e' \<in> set es"
    from mem[OF this(1,2)] show "p_x a \<le> p_x e'"
    proof
      assume "a = e"
      with s0 e' show ?thesis by simp
    next
      assume "\<exists>l'\<in>set ls. a \<in> set l'"
      then obtain l' where "l' \<in> set ls" "a \<in> set l'" by blast
      with b1 e' show ?thesis by blast
    qed
  qed
  have "foldl (\<lambda>levels e.
            placeInLevels
              (\<lambda>level. case level of [] \<Rightarrow> False
                        | _ # _ \<Rightarrow> p_x2 (last level) + S < p_x e \<and> C e)
              e levels) ls (e # es) =
        foldl (\<lambda>levels e.
            placeInLevels
              (\<lambda>level. case level of [] \<Rightarrow> False
                        | _ # _ \<Rightarrow> p_x2 (last level) + S < p_x e \<and> C e)
              e levels) ?ls' es"
    by simp
  with Cons.IH[OF inv below s1] show ?case by (simp only:)
qed

lemma assignLevelsToEvents_separated:
  assumes "sorted_wrt (\<lambda>a b. p_x a \<le> p_x b) es"
  shows "\<forall>l\<in>set (assignLevelsToEvents es S labels). sorted_wrt (\<lambda>a b. p_x2 a + S < p_x b) l"
proof -
  have "\<forall>l\<in>set (assignLevelsToEvents es S labels). l \<noteq> [] \<and> sorted_wrt (\<lambda>a b. p_x2 a + S < p_x b) l"
    unfolding assignLevelsToEvents_def
    by (rule foldl_last[where C = "\<lambda>e. \<not> conflictsWithDateLabel labels (p_x e) (p_x2 e)"])
       (use assms in simp_all)
  then show ?thesis by simp
qed

subsection \<open>The list built from the levels\<close>

lemma enumerate_blocks_member:
  assumes "q \<in> set (concat (map (\<lambda>(i, l). map (mk i) l) (enumerate n levels)))"
  shows "\<exists>j e. n \<le> j \<and> j < n + length levels \<and> e \<in> set (levels ! (j - n)) \<and> q = mk j e"
  using assms
proof (induction levels arbitrary: n)
  case Nil
  then show ?case by simp
next
  case (Cons l ls)
  from Cons.prems consider (head) "q \<in> set (map (mk n) l)"
    | (tail) "q \<in> set (concat (map (\<lambda>(i, l). map (mk i) l) (enumerate (Suc n) ls)))"
    by auto
  then show ?case
  proof cases
    case head
    then obtain e where "e \<in> set l" "q = mk n e" by auto
    then show ?thesis by (intro exI[of _ n] exI[of _ e]) simp
  next
    case tail
    from Cons.IH[OF this] obtain j e where
      j: "Suc n \<le> j" "j < Suc n + length ls" "e \<in> set (ls ! (j - Suc n))" "q = mk j e" by blast
    from j(1) have "(l # ls) ! (j - n) = ls ! (j - Suc n)"
      by (simp add: Suc_diff_le)
    with j show ?thesis by (intro exI[of _ j] exI[of _ e]) simp
  qed
qed

lemma enumerate_blocks_sorted_wrt:
  assumes levels: "\<forall>l\<in>set levels. sorted_wrt R l"
    and same: "\<And>i e e'. R e e' \<Longrightarrow> Q (mk i e) (mk i e')"
    and other: "\<And>i j e e'. i \<noteq> j \<Longrightarrow> Q (mk i e) (mk j e')"
  shows "sorted_wrt Q (concat (map (\<lambda>(i, l). map (mk i) l) (enumerate n levels)))"
  using levels
proof (induction levels arbitrary: n)
  case Nil
  then show ?case by simp
next
  case (Cons l ls)
  from Cons.prems have "sorted_wrt R l" by simp
  then have "sorted_wrt (\<lambda>e e'. Q (mk n e) (mk n e')) l"
    by (rule sorted_wrt_mono_rel[rotated]) (simp add: same)
  then have block: "sorted_wrt Q (map (mk n) l)"
    by (simp add: sorted_wrt_map)
  from Cons.prems have rest: "sorted_wrt Q (concat (map (\<lambda>(i, l). map (mk i) l) (enumerate (Suc n) ls)))"
    by (intro Cons.IH) simp
  have cross: "Q p q" if p: "p \<in> set (map (mk n) l)"
    and q: "q \<in> set (concat (map (\<lambda>(i, l). map (mk i) l) (enumerate (Suc n) ls)))" for p q
  proof -
    from p obtain e where "p = mk n e" by auto
    moreover from enumerate_blocks_member[OF q] obtain j e' where "Suc n \<le> j" "q = mk j e'" by blast
    ultimately show ?thesis using other[of n j e e'] by simp
  qed
  show ?case
    using block rest cross by (simp add: sorted_wrt_append)
qed

subsection \<open>Entries\<close>

lemma toEntry_fields:
  assumes "toEntry E rs ax sc ev = Some e"
  shows "p_event e = ev"
    and "\<exists>t. validTime E (orElse (evStartDate ev) (computedDate ev)) = Some t \<and> p_date e = t \<and>
             p_x e = ax + real_of_int (t - rs) * sc"
  using assms by (auto simp: toEntry_def Let_def split: option.splits)

lemma map_filter_member: "y \<in> set (List.map_filter f xs) \<longleftrightarrow> (\<exists>x\<in>set xs. f x = Some y)"
  by (induction xs) (auto split: option.splits)

lemma eventsWithX_member:
  assumes "e \<in> set (eventsWithX E rs ax sc es)"
  shows "p_event e \<in> set es \<and> toEntry E rs ax sc (p_event e) = Some e"
proof -
  from assms obtain ev where "ev \<in> set es" "toEntry E rs ax sc ev = Some e"
    by (auto simp: eventsWithX_def map_filter_member)
  with toEntry_fields(1)[OF this(2)] show ?thesis by simp
qed

lemma eventsWithX_sorted_x:
  assumes "0 \<le> sc"
  shows "sorted_wrt (\<lambda>a b. p_x a \<le> p_x b) (eventsWithX E rs ax sc es)"
proof -
  have "sorted (map p_date (eventsWithX E rs ax sc es))"
    unfolding eventsWithX_def by (rule sorted_sort_key)
  then have d: "sorted_wrt (\<lambda>a b. p_date a \<le> p_date b) (eventsWithX E rs ax sc es)"
    by (simp add: sorted_wrt_map)
  have x: "p_x a = ax + real_of_int (p_date a - rs) * sc" if "a \<in> set (eventsWithX E rs ax sc es)" for a
    using toEntry_fields(2)[of E rs ax sc "p_event a" a] eventsWithX_member[OF that] by auto
  show ?thesis
  proof (rule sorted_wrt_mono_rel[OF _ d])
    fix a b assume "a \<in> set (eventsWithX E rs ax sc es)" "b \<in> set (eventsWithX E rs ax sc es)"
      and "p_date a \<le> p_date b"
    then show "p_x a \<le> p_x b"
      using assms by (simp add: x mult_right_mono)
  qed
qed

subsection \<open>Placements and entries\<close>

lemma levelPositions_member:
  assumes "p \<in> set (levelPositions yOf levels)"
  shows "\<exists>e\<in>set (concat levels). p_event p = p_event e \<and> p_x p = p_x e \<and> p_x2 p = p_x2 e \<and>
           p_y p = yOf (p_level p)"
proof -
  from enumerate_blocks_member[of p
         "\<lambda>i e. \<lparr> p_event = p_event e, p_x = p_x e, p_x2 = p_x2 e, p_y = yOf i, p_level = i \<rparr>"
         0 levels] assms[unfolded levelPositions_def]
  obtain j e where j: "j < length levels" "e \<in> set (levels ! j)"
    and p: "p = \<lparr> p_event = p_event e, p_x = p_x e, p_x2 = p_x2 e, p_y = yOf j, p_level = j \<rparr>"
    by auto
  from j have "levels ! j \<in> set levels" by simp
  with j(2) have "e \<in> set (concat levels)" by auto
  with p show ?thesis by auto
qed

lemma labelOffsets_member:
  assumes "p \<in> set (labelOffsets offsetOf levels)"
  shows "\<exists>e\<in>set (concat levels). \<exists>j. p_event p = p_event e \<and> p_x p = p_x e \<and> p_x2 p = p_x2 e \<and>
           labelYOffset p = offsetOf j"
proof -
  from enumerate_blocks_member[of p
         "\<lambda>i e. \<lparr> p_event = p_event e, p_x = p_x e, p_x2 = p_x2 e, labelYOffset = offsetOf i \<rparr>"
         0 levels] assms[unfolded labelOffsets_def]
  obtain j e where j: "j < length levels" "e \<in> set (levels ! j)"
    and p: "p = \<lparr> p_event = p_event e, p_x = p_x e, p_x2 = p_x2 e, labelYOffset = offsetOf j \<rparr>"
    by auto
  from j have "levels ! j \<in> set levels" by simp
  with j(2) have "e \<in> set (concat levels)" by auto
  with p show ?thesis by auto
qed

lemma levelPositions_separated:
  assumes "\<forall>l\<in>set levels. sorted_wrt (\<lambda>a b. p_x2 b < p_x a - S \<or> p_x b > p_x2 a + S) l"
  shows "sorted_wrt (\<lambda>p q. p_level p = p_level q \<longrightarrow> p_x2 q < p_x p - S \<or> p_x q > p_x2 p + S)
           (levelPositions yOf levels)"
  unfolding levelPositions_def
  by (rule enumerate_blocks_sorted_wrt[OF assms,
        where mk = "\<lambda>i e. \<lparr> p_event = p_event e, p_x = p_x e, p_x2 = p_x2 e, p_y = yOf i, p_level = i \<rparr>"])
     simp_all

lemma labelOffsets_separated:
  assumes "\<forall>l\<in>set levels. sorted_wrt (\<lambda>a b. p_x2 b < p_x a - S \<or> p_x b > p_x2 a + S) l"
    and "inj offsetOf"
  shows "sorted_wrt (\<lambda>p q. labelYOffset p = labelYOffset q \<longrightarrow> p_x2 q < p_x p - S \<or> p_x q > p_x2 p + S)
           (labelOffsets offsetOf levels)"
  unfolding labelOffsets_def
  by (rule enumerate_blocks_sorted_wrt[OF assms(1),
        where mk = "\<lambda>i e. \<lparr> p_event = p_event e, p_x = p_x e, p_x2 = p_x2 e, labelYOffset = offsetOf i \<rparr>"])
     (use assms(2) in \<open>simp_all add: inj_eq\<close>)

lemma chain_separated:
  assumes "\<forall>l\<in>set levels. sorted_wrt (\<lambda>a b. p_x2 a + S < p_x b) l"
  shows "\<forall>l\<in>set levels. sorted_wrt (\<lambda>a b. p_x2 b < p_x a - S \<or> p_x b > p_x2 a + S) l"
proof
  fix l assume "l \<in> set levels"
  with assms have "sorted_wrt (\<lambda>a b. p_x2 a + S < p_x b) l" by simp
  then show "sorted_wrt (\<lambda>a b. p_x2 b < p_x a - S \<or> p_x b > p_x2 a + S) l"
    by (rule sorted_wrt_mono_rel[rotated]) simp
qed

lemma calculateEventPositions_separated:
  assumes "fEntity (filters st) \<noteq> [] \<longrightarrow> 0 \<le> scale"
  shows "sorted_wrt (\<lambda>p q. p_level p = p_level q \<and> (p_y p < axisY \<longleftrightarrow> p_y q < axisY) \<longrightarrow>
                        p_x2 q < p_x p - 200 \<or> p_x q > p_x2 p + 200)
           (calculateEventPositions E st es rs re ax scale axisY labels)"
proof (cases "fEntity (filters st) = []")
  case True
  have "sorted_wrt (\<lambda>p q. p_level p = p_level q \<longrightarrow> p_x2 q < p_x p - 200 \<or> p_x q > p_x2 p + 200)
          (calculateEventPositions E st es rs re ax scale axisY labels)"
    using True
    by (simp add: calculateEventPositions_def Let_def levelPositions_separated assignLevelsFitting_separated)
  then show ?thesis
    by (rule sorted_wrt_mono_rel[rotated]) simp
next
  case False
  with assms have sc: "0 \<le> scale" by simp
  define entries where "entries = eventsWithX E rs ax scale es"
  define key where "key = fEntity (filters st)"
  define A where "A = levelPositions (\<lambda>levelIndex. axisY - real (levelIndex + 1) * 30)
      (assignLevelsToEvents (filter (isPrimaryFor key) entries) 200 labels)"
  define B where "B = levelPositions (\<lambda>levelIndex. axisY + real (levelIndex + 1) * 30)
      (assignLevelsToEvents (filter (\<lambda>e. \<not> isPrimaryFor key e) entries) 200 labels)"
  have ps: "calculateEventPositions E st es rs re ax scale axisY labels = A @ B"
    using False by (simp add: calculateEventPositions_def Let_def A_def B_def entries_def key_def)
  have sorted: "sorted_wrt (\<lambda>a b. p_x a \<le> p_x b) (filter P entries)" for P
    unfolding entries_def by (intro sorted_wrt_filter eventsWithX_sorted_x sc)
  have part: "sorted_wrt (\<lambda>p q. p_level p = p_level q \<and> (p_y p < axisY \<longleftrightarrow> p_y q < axisY) \<longrightarrow>
                        p_x2 q < p_x p - 200 \<or> p_x q > p_x2 p + 200)
                (levelPositions yOf (assignLevelsToEvents (filter P entries) 200 labels))" for yOf P
    by (rule sorted_wrt_mono_rel[rotated],
        rule levelPositions_separated[OF chain_separated[OF assignLevelsToEvents_separated[OF sorted]]])
       simp
  have above: "p_y p < axisY" if "p \<in> set A" for p
    using levelPositions_member[OF that[unfolded A_def]] by auto
  have below: "\<not> p_y q < axisY" if "q \<in> set B" for q
    using levelPositions_member[OF that[unfolded B_def]] by auto
  show ?thesis
    unfolding ps sorted_wrt_append
    using part[of _ "isPrimaryFor key"] part[of _ "\<lambda>e. \<not> isPrimaryFor key e"] above below
    by (auto simp: A_def B_def)
qed

lemma splitRowLayout_separated:
  "sorted_wrt (\<lambda>p q. labelYOffset p = labelYOffset q \<longrightarrow> p_x2 q < p_x p - 80 \<or> p_x q > p_x2 p + 80)
     (splitRowLayout E splitBy key rowEvents rs ax scale)"
proof -
  define A where "A entries = labelOffsets (\<lambda>levelIndex. - (real levelIndex * 30 + 15))
      (assignLevelsFitting 80 entries)" for entries
  define B where "B entries = labelOffsets (\<lambda>levelIndex. real levelIndex * 30 + 20)
      (assignLevelsFitting 80 entries)" for entries
  have sa: "sorted_wrt (\<lambda>p q. labelYOffset p = labelYOffset q \<longrightarrow> p_x2 q < p_x p - 80 \<or> p_x q > p_x2 p + 80)
      (A entries)" for entries
    unfolding A_def
    by (rule labelOffsets_separated[OF assignLevelsFitting_separated]) (simp add: inj_def)
  have sb: "sorted_wrt (\<lambda>p q. labelYOffset p = labelYOffset q \<longrightarrow> p_x2 q < p_x p - 80 \<or> p_x q > p_x2 p + 80)
      (B entries)" for entries
    unfolding B_def
    by (rule labelOffsets_separated[OF assignLevelsFitting_separated]) (simp add: inj_def)
  have neg: "labelYOffset p < 0" if "p \<in> set (A entries)" for p entries
    using labelOffsets_member[OF that[unfolded A_def]] by auto
  have pos: "0 < labelYOffset q" if "q \<in> set (B entries)" for q entries
  proof -
    from labelOffsets_member[OF that[unfolded B_def]] obtain j where "labelYOffset q = real j * 30 + 20"
      by auto
    then show ?thesis by simp
  qed
  have cross: "labelYOffset p \<noteq> labelYOffset q" if "p \<in> set (A e1)" "q \<in> set (B e2)" for p q e1 e2
    using neg[OF that(1)] pos[OF that(2)] by simp
  have eq: "splitRowLayout E splitBy key rowEvents rs ax scale =
      A (if splitBy = Entity then filter (isPrimaryFor key) (eventsWithX E rs ax scale rowEvents)
         else eventsWithX E rs ax scale rowEvents) @
      B (if splitBy = Entity then filter (\<lambda>e. \<not> isPrimaryFor key e) (eventsWithX E rs ax scale rowEvents)
         else [])"
    by (simp add: splitRowLayout_def Let_def A_def B_def)
  show ?thesis
    unfolding eq sorted_wrt_append using sa sb cross by blast
qed

lemma calculateEventPositions_member:
  assumes "p \<in> set (calculateEventPositions E st es rs re ax sc axisY labels)"
  shows "\<exists>e. toEntry E rs ax sc (p_event p) = Some e \<and> p_x p = p_x e \<and> p_x2 p = p_x2 e"
proof -
  define entries where "entries = eventsWithX E rs ax sc es"
  have "\<exists>e\<in>set entries. p_event p = p_event e \<and> p_x p = p_x e \<and> p_x2 p = p_x2 e"
  proof (cases "fEntity (filters st) = []")
    case True
    with assms have "p \<in> set (levelPositions
        (\<lambda>levelIndex. axisY + (if levelIndex mod 2 = 0 then - 1 else 1) * real (levelIndex div 2 + 2) * 30)
        (assignLevelsFitting 200 entries))"
      by (simp add: calculateEventPositions_def Let_def entries_def)
    from levelPositions_member[OF this, unfolded assignLevelsFitting_set] show ?thesis
      by blast
  next
    case False
    with assms consider
      "p \<in> set (levelPositions (\<lambda>levelIndex. axisY - real (levelIndex + 1) * 30)
         (assignLevelsToEvents (filter (isPrimaryFor (fEntity (filters st))) entries) 200 labels))"
      | "p \<in> set (levelPositions (\<lambda>levelIndex. axisY + real (levelIndex + 1) * 30)
         (assignLevelsToEvents (filter (\<lambda>e. \<not> isPrimaryFor (fEntity (filters st)) e) entries) 200 labels))"
      by (auto simp: calculateEventPositions_def Let_def entries_def)
    then show ?thesis
    proof cases
      case 1
      from levelPositions_member[OF this, unfolded assignLevelsToEvents_set] show ?thesis
        by auto
    next
      case 2
      from levelPositions_member[OF this, unfolded assignLevelsToEvents_set] show ?thesis
        by auto
    qed
  qed
  then obtain e where e: "e \<in> set entries" "p_event p = p_event e" "p_x p = p_x e" "p_x2 p = p_x2 e"
    by blast
  from eventsWithX_member[OF e(1)[unfolded entries_def]] e show ?thesis by auto
qed

lemma toEntry_point:
  assumes "toEntry E rs ax sc ev = Some e" "\<not> (truthy (evEndDate ev) \<and> \<not> evIsOngoing ev)"
  shows "p_x2 e = p_x e"
  using assms by (auto simp: toEntry_def Let_def split: option.splits)

lemma toEntry_forward:
  assumes "toEntry E rs ax sc ev = Some e" "0 \<le> sc"
    and "validTime E (orElse (evStartDate ev) (computedDate ev)) = Some ts"
    and "validTime E (evEndDate ev) = Some te" "ts \<le> te"
  shows "p_x e \<le> p_x2 e"
  using assms by (auto simp: toEntry_def Let_def mult_right_mono split: option.splits if_splits)

subsection \<open>The renderer on given inputs\<close>

lemmas engine_defs = exampleEngine_def isoDate_def digitsVal_def daysFromCivil_def str_def isDigit_def

lemma example_time: "validTime exampleEngine (Some (str ''2026-11-02'')) = Some 1793577600000"
  by (simp add: validTime_def engine_defs)

lemma example_dates:
  "collectDates exampleEngine [pointEvent ''release'' ''2026-11-02''] = [1793577600000]"
  by (simp add: collectDates_def orElse_def truthy_def pointEvent_def validTime_def engine_defs)

lemma example_now: "getTime (now exampleEngine) = 1793577600000"
  by (simp add: exampleEngine_def)

lemma example_range:
  "renderRange exampleEngine [pointEvent ''release'' ''2026-11-02''] = Some (1790985600000, 1796169600000)"
  by (simp add: renderRange_def example_dates example_now Let_def paddedRange_def minOf_def maxOf_def timeClip_def)

lemma cex_before:
  "timeToX exampleEngine (exampleState Single 1 (- 700) [pointEvent ''release'' ''2026-11-02''])
     [pointEvent ''release'' ''2026-11-02''] 1798113600000 = Some 500"
  by (simp add: timeToX_def example_range exampleState_def leftMarginOf_def isSplit_def MARGIN_left_def MARGIN_right_def Let_def)

lemma cex_setZoom:
  "setZoom exampleEngine 10 (exampleState Single 1 (- 700) [pointEvent ''release'' ''2026-11-02''])
     = exampleState Single 10 (- 7900) [pointEvent ''release'' ''2026-11-02'']"
  by (simp add: setZoom_def constrainPan_def example_dates exampleState_def isSplit_def getRowHeight_def
        BASE_ROW_HEIGHT_def MARGIN_left_def MARGIN_right_def Let_def paddedRange_def minOf_def maxOf_def timeClip_def)

lemma cex_after:
  "timeToX exampleEngine (exampleState Single 10 (- 7900) [pointEvent ''release'' ''2026-11-02''])
     [pointEvent ''release'' ''2026-11-02''] 1798113600000 = Some 3200"
  by (simp add: timeToX_def example_range exampleState_def leftMarginOf_def isSplit_def MARGIN_left_def MARGIN_right_def Let_def)

lemmas layout_defs = calculateEventPositions_def eventsWithX_def toEntry_def validTime_def orElse_def
  truthy_def assignLevelsFitting_def assignLevelsToEvents_def fitsInLevel_def conflictsWithDateLabel_def
  levelPositions_def labelOffsets_def splitRowLayout_def isPrimaryFor_def primaryEntities_def
  pointEvent_def parsedEvent_def exampleState_def Let_def

lemma two_points_range:
  "renderRange exampleEngine [pointEvent ''alpha'' ''2026-11-02'', pointEvent ''beta'' ''2026-11-12'']
     = Some (1793491200000, 1794528000000)"
  by (simp add: renderRange_def collectDates_def validTime_def orElse_def truthy_def pointEvent_def
        engine_defs Let_def paddedRange_def minOf_def maxOf_def timeClip_def)

lemma two_points_positions:
  "calculateEventPositions exampleEngine
     (exampleState Single 0.5 0 [pointEvent ''alpha'' ''2026-11-02'', pointEvent ''beta'' ''2026-11-12''])
     [pointEvent ''alpha'' ''2026-11-02'', pointEvent ''beta'' ''2026-11-12'']
     1793491200000 1794528000000 100 (1 / 2592000) 300 []
   = [\<lparr> p_event = pointEvent ''alpha'' ''2026-11-02'', p_x = 400 / 3, p_x2 = 400 / 3, p_y = 240, p_level = 0 \<rparr>,
      \<lparr> p_event = pointEvent ''beta'' ''2026-11-12'', p_x = 1400 / 3, p_x2 = 1400 / 3, p_y = 240, p_level = 0 \<rparr>]"
  by (simp add: layout_defs engine_defs)

lemma two_points_split_row:
  "splitRowLayout exampleEngine Goal (str ''launch'')
     [pointEvent ''alpha'' ''2026-11-02'', pointEvent ''beta'' ''2026-11-12'']
     1793491200000 180 (1 / 2880000)
   = [\<lparr> p_event = pointEvent ''alpha'' ''2026-11-02'', p_x = 210, p_x2 = 210, labelYOffset = - 15 \<rparr>,
      \<lparr> p_event = pointEvent ''beta'' ''2026-11-12'', p_x = 510, p_x2 = 510, labelYOffset = - 15 \<rparr>]"
  by (simp add: layout_defs engine_defs)

lemma reversed_range_positions:
  "map (\<lambda>p. (p_x p, p_x2 p))
     (calculateEventPositions exampleEngine
        (exampleState Single 1 0
           [parsedEvent ''span'' \<lparr> startDate = str ''2027-01-01'', endDate = Some (str ''2026-12-31''),
                                   isOngoing = False \<rparr>])
        [parsedEvent ''span'' \<lparr> startDate = str ''2027-01-01'', endDate = Some (str ''2026-12-31''),
                                isOngoing = False \<rparr>]
        1793059200000 1799280000000 100 (1 / 7776000) 300 [])
   = [(2500 / 3, 7400 / 9)]"
  by (simp add: layout_defs engine_defs)

lemma reversed_range_axis:
  "renderRange exampleEngine
     [parsedEvent ''span'' \<lparr> startDate = str ''2027-01-01'', endDate = Some (str ''2026-12-31''),
                             isOngoing = False \<rparr>]
   = Some (1793059200000, 1799280000000)"
  by (simp add: renderRange_def collectDates_def validTime_def orElse_def truthy_def parsedEvent_def
        engine_defs Let_def paddedRange_def minOf_def maxOf_def timeClip_def)

lemma witness_center:
  "timeToX exampleEngine (exampleState Single 1 0 [pointEvent ''release'' ''2026-11-02''])
     [pointEvent ''release'' ''2026-11-02''] 1793577600000 = Some 500"
  by (simp add: timeToX_def example_range exampleState_def leftMarginOf_def isSplit_def MARGIN_left_def MARGIN_right_def Let_def)

lemma witness_pan_range:
  "panXRange exampleEngine
     ((exampleState Single 1 0 [pointEvent ''release'' ''2026-11-02''])\<lparr>zoom := 2\<rparr>)
     \<lparr> rWidth = 1000, rHeight = 600 \<rparr> = (- 1500, 900)"
  by (simp add: panXRange_def example_dates exampleState_def isSplit_def MARGIN_left_def MARGIN_right_def
        Let_def paddedRange_def minOf_def maxOf_def timeClip_def)

lemma split_view_before:
  "timeToX exampleEngine (exampleState Entity 1 0 [pointEvent ''release'' ''2026-11-02''])
     [pointEvent ''release'' ''2026-11-02''] 1793289600000 = Some 500"
  by (simp add: timeToX_def example_range exampleState_def leftMarginOf_def isSplit_def
        SPLIT_VIEW_LABEL_WIDTH_def MARGIN_right_def Let_def)

lemma example_entities:
  "primaryEntities (pointEvent name day) = [Some (str ''team'')]"
  "secondaryEntitiesOf (pointEvent name day) = []"
  by (simp_all add: primaryEntities_def secondaryEntitiesOf_def pointEvent_def)

lemma split_view_setZoom:
  "setZoom exampleEngine 2 (exampleState Entity 1 0 [pointEvent ''release'' ''2026-11-02''])
     = (exampleState Entity 2 (- 400) [pointEvent ''release'' ''2026-11-02''])\<lparr>panY := 380\<rparr>"
  by (simp add: setZoom_def constrainPan_def example_dates example_entities exampleState_def isSplit_def
        getRowHeight_def rowCount_def
        BASE_ROW_HEIGHT_def MARGIN_left_def MARGIN_right_def MARGIN_top_def MARGIN_bottom_def
        SPLIT_VIEW_LABEL_WIDTH_def Let_def paddedRange_def minOf_def maxOf_def timeClip_def)

text \<open>
  In the split view the axis starts at the label column (180) while \<open>setZoom\<close> solves the
  pan with the left margin of the single view (100): the date under the centre moves by
  \<open>80 * (1 - newZoom / oldZoom)\<close> pixels, here from 500 to 420.
\<close>

lemma split_view_after:
  "timeToX exampleEngine
     (setZoom exampleEngine 2 (exampleState Entity 1 0 [pointEvent ''release'' ''2026-11-02'']))
     [pointEvent ''release'' ''2026-11-02''] 1793289600000 = Some 420"
  unfolding split_view_setZoom
  by (simp add: timeToX_def example_range exampleState_def leftMarginOf_def isSplit_def
        SPLIT_VIEW_LABEL_WIDTH_def MARGIN_right_def Let_def)

lemma forward_range_positions:
  "calculateEventPositions exampleEngine
     (exampleState Single 1 0 [])
     [parsedEvent ''spring'' \<lparr> startDate = str ''2026-04-01'', endDate = Some (str ''2026-06-28''),
                               isOngoing = False \<rparr>]
     1775001600000 1782604800000 100 (1 / 86400000) 300 []
   = [\<lparr> p_event = parsedEvent ''spring'' \<lparr> startDate = str ''2026-04-01'',
                                             endDate = Some (str ''2026-06-28''), isOngoing = False \<rparr>,
        p_x = 100, p_x2 = 188, p_y = 240, p_level = 0 \<rparr>]"
  by (simp add: layout_defs engine_defs)

lemma forward_range_times:
  "validTime exampleEngine (Some (str ''2026-04-01'')) = Some 1775001600000"
  "validTime exampleEngine (Some (str ''2026-06-28'')) = Some 1782604800000"
  by (simp_all add: validTime_def engine_defs)

lemma reversed_range_times:
  "validTime exampleEngine (Some (str ''2027-01-01'')) = Some 1798761600000"
  "validTime exampleEngine (Some (str ''2026-12-31'')) = Some 1798675200000"
  by (simp_all add: validTime_def engine_defs)

section \<open>Claims about the renderer\<close>

text \<open>
  C2. The claim: of any two events in the same level on the same side, the intervals
  \<open>[x - spacing, x2 + spacing]\<close> do not intersect. The level tests compare the new event's
  own extent \<open>[x, x2]\<close> with the widened interval of an event already in the level, so two
  events of one level are more than \<open>spacing\<close> apart, not more than twice \<open>spacing\<close>. What
  holds: in the list of placements, of two events with the same level and side the one
  placed later lies outside the widened interval of the earlier one, with spacing 200 in
  \<open>calculateEventPositions\<close> and 80 in the rows of the split view (where level and side
  are read from \<open>labelYOffset\<close>). With an entity filter the test looks at the last event
  of a level only, and the statement needs the scale to be non-negative.
\<close>

theorem levels_keep_spacing:
  assumes "fEntity (filters st) \<noteq> [] \<longrightarrow> 0 \<le> scale"
  shows "(let ps = calculateEventPositions E st es rs re ax scale axisY labels
          in \<forall>i j. i < j \<and> j < length ps \<and> p_level (ps ! i) = p_level (ps ! j) \<and>
                   (p_y (ps ! i) < axisY \<longleftrightarrow> p_y (ps ! j) < axisY) \<longrightarrow>
                   p_x2 (ps ! j) < p_x (ps ! i) - 200 \<or> p_x (ps ! j) > p_x2 (ps ! i) + 200) \<and>
         (let qs = splitRowLayout E splitBy key rowEvents rs ax scale
          in \<forall>i j. i < j \<and> j < length qs \<and> labelYOffset (qs ! i) = labelYOffset (qs ! j) \<longrightarrow>
                   p_x2 (qs ! j) < p_x (qs ! i) - 80 \<or> p_x (qs ! j) > p_x2 (qs ! i) + 80)"
  using calculateEventPositions_separated[OF assms, of axisY E es rs re ax labels]
        splitRowLayout_separated[of E splitBy key rowEvents rs ax scale]
  unfolding Let_def sorted_wrt_iff_nth_less by blast

theorem levels_keep_spacing_witness:
  "(let ps = calculateEventPositions exampleEngine
               (exampleState Single 0.5 0 [pointEvent ''alpha'' ''2026-11-02'', pointEvent ''beta'' ''2026-11-12''])
               [pointEvent ''alpha'' ''2026-11-02'', pointEvent ''beta'' ''2026-11-12'']
               1793491200000 1794528000000 100 (1 / 2592000) 300 []
    in length ps = 2 \<and> p_level (ps ! 0) = p_level (ps ! 1) \<and> p_y (ps ! 0) = p_y (ps ! 1) \<and>
       (p_x2 (ps ! 1) < p_x (ps ! 0) - 200 \<or> p_x (ps ! 1) > p_x2 (ps ! 0) + 200))"
proof -
  define st where "st = exampleState Single 0.5 0 [pointEvent ''alpha'' ''2026-11-02'', pointEvent ''beta'' ''2026-11-12'']"
  define ps where "ps = calculateEventPositions exampleEngine st
               [pointEvent ''alpha'' ''2026-11-02'', pointEvent ''beta'' ''2026-11-12'']
               1793491200000 1794528000000 100 (1 / 2592000) 300 []"
  have h: "fEntity (filters st) \<noteq> [] \<longrightarrow> 0 \<le> (1 / 2592000 :: real)" by simp
  have shape: "length ps = 2" "p_level (ps ! 0) = p_level (ps ! 1)" "p_y (ps ! 0) = p_y (ps ! 1)"
    unfolding ps_def st_def two_points_positions by simp_all
  from levels_keep_spacing[OF h, of exampleEngine
         "[pointEvent ''alpha'' ''2026-11-02'', pointEvent ''beta'' ''2026-11-12'']"
         1793491200000 1794528000000 100 300 "[]"]
  have "\<forall>i j. i < j \<and> j < length ps \<and> p_level (ps ! i) = p_level (ps ! j) \<and>
              (p_y (ps ! i) < 300 \<longleftrightarrow> p_y (ps ! j) < 300) \<longrightarrow>
              p_x2 (ps ! j) < p_x (ps ! i) - 200 \<or> p_x (ps ! j) > p_x2 (ps ! i) + 200"
    unfolding Let_def ps_def by blast
  then have "0 < (1::nat) \<and> 1 < length ps \<and> p_level (ps ! 0) = p_level (ps ! 1) \<and>
              (p_y (ps ! 0) < 300 \<longleftrightarrow> p_y (ps ! 1) < 300) \<longrightarrow>
              p_x2 (ps ! 1) < p_x (ps ! 0) - 200 \<or> p_x (ps ! 1) > p_x2 (ps ! 0) + 200"
    by blast
  with shape have "p_x2 (ps ! 1) < p_x (ps ! 0) - 200 \<or> p_x (ps ! 1) > p_x2 (ps ! 0) + 200"
    by simp
  with shape show ?thesis
    unfolding Let_def ps_def st_def by simp
qed

text \<open>
  The claim as stated fails for two point events ten days apart on a canvas 1000 wide at
  zoom 0.5 with no pan and no filter, for which the single view computes the date range
  below, the axis origin 100, the scale \<open>400 / 1036800000\<close> and the axis height 300: the
  events are 333 pixels apart, share level 0 above the axis, and their intervals widened
  by 200 on each side intersect.
\<close>

theorem widened_intervals_intersect:
  "renderRange exampleEngine [pointEvent ''alpha'' ''2026-11-02'', pointEvent ''beta'' ''2026-11-12'']
     = Some (1793491200000, 1794528000000) \<and>
   (let ps = calculateEventPositions exampleEngine
               (exampleState Single 0.5 0 [pointEvent ''alpha'' ''2026-11-02'', pointEvent ''beta'' ''2026-11-12''])
               [pointEvent ''alpha'' ''2026-11-02'', pointEvent ''beta'' ''2026-11-12'']
               1793491200000 1794528000000 100 (1 / 2592000) 300 []
    in p_level (ps ! 0) = p_level (ps ! 1) \<and> p_y (ps ! 0) = p_y (ps ! 1) \<and>
       p_x (ps ! 1) - 200 \<le> p_x2 (ps ! 0) + 200 \<and> p_x (ps ! 0) - 200 \<le> p_x2 (ps ! 1) + 200)"
  unfolding two_points_positions two_points_range by (simp add: Let_def)

text \<open>
  C3. The claim: after \<open>setZoom\<close> the date that was under the centre of the viewport is
  within one pixel of the centre again, in every view mode. \<open>setZoom\<close> ends with
  \<open>constrainPan\<close>, which moves the pan back into its bounds, and then the date leaves the
  centre. What holds in the single view: when the new pan that \<open>setZoom\<close> solves for lies
  within the bounds of \<open>constrainPan\<close> (or there is nothing to clamp against), the date
  under the centre stays under the centre. \<open>es\<close> is the list of events being rendered.
\<close>

theorem setZoom_keeps_center_single:
  assumes svg: "svg st = Some r"
    and single: "viewMode st = Single"
    and zoom: "0 < zoom st"
    and centered: "timeToX E st es D = Some (rWidth r / 2)"
    and inside: "events st = [] \<or> collectDates E (events st) = [] \<or>
       (let z' = max 0.1 (min 10 newZoom);
            p' = rWidth r / 2 - (rWidth r / 2 - panX st - MARGIN_left) / zoom st * z' - MARGIN_left
        in fst (panXRange E (st\<lparr>zoom := z'\<rparr>) r) \<le> p' \<and> p' \<le> snd (panXRange E (st\<lparr>zoom := z'\<rparr>) r))"
  shows "\<exists>x'. timeToX E (setZoom E newZoom st) es D = Some x' \<and> \<bar>x' - rWidth r / 2\<bar> \<le> 1"
proof -
  define z' where "z' = max 0.1 (min 10 newZoom)"
  define p' where "p' = rWidth r / 2 - (rWidth r / 2 - panX st - MARGIN_left) / zoom st * z' - MARGIN_left"
  have eq: "setZoom E newZoom st = st\<lparr>zoom := z', panX := p'\<rparr>"
    using inside by (intro setZoom_single_unclamped[OF svg single _ z'_def p'_def])
                    (simp add: Let_def z'_def p'_def)
  have lm: "leftMarginOf st = MARGIN_left"
    using single by (simp add: leftMarginOf_def isSplit_def)
  from centered svg obtain s e where range: "renderRange E es = Some (s, e)"
    by (auto simp: timeToX_def split: option.splits)
  define A where "A = (D - real_of_int s) * ((rWidth r - MARGIN_left - MARGIN_right) / real_of_int (e - s))"
  have before: "MARGIN_left + panX st + A * zoom st = rWidth r / 2"
    using centered svg range lm by (simp add: timeToX_def Let_def A_def)
  have after: "timeToX E (st\<lparr>zoom := z', panX := p'\<rparr>) es D = Some (MARGIN_left + p' + A * z')"
    using svg range lm by (simp add: timeToX_def Let_def A_def)
  from before zoom have "A = (rWidth r / 2 - panX st - MARGIN_left) / zoom st"
    by (simp add: field_simps)
  then have "MARGIN_left + p' + A * z' = rWidth r / 2"
    by (simp add: p'_def)
  with after eq have "timeToX E (setZoom E newZoom st) es D = Some (rWidth r / 2)"
    by simp
  then show ?thesis
    by (intro exI[of _ "rWidth r / 2"]) simp
qed

theorem setZoom_keeps_center_single_witness:
  "svg (exampleState Single 1 0 [pointEvent ''release'' ''2026-11-02'']) =
     Some \<lparr> rWidth = 1000, rHeight = 600 \<rparr> \<and>
   viewMode (exampleState Single 1 0 [pointEvent ''release'' ''2026-11-02'']) = Single \<and>
   0 < zoom (exampleState Single 1 0 [pointEvent ''release'' ''2026-11-02'']) \<and>
   timeToX exampleEngine (exampleState Single 1 0 [pointEvent ''release'' ''2026-11-02''])
     [pointEvent ''release'' ''2026-11-02''] 1793577600000 = Some 500 \<and>
   (\<exists>x'. timeToX exampleEngine
            (setZoom exampleEngine 2 (exampleState Single 1 0 [pointEvent ''release'' ''2026-11-02'']))
            [pointEvent ''release'' ''2026-11-02''] 1793577600000 = Some x' \<and>
         \<bar>x' - 500\<bar> \<le> 1)"
proof -
  define st where "st = exampleState Single 1 0 [pointEvent ''release'' ''2026-11-02'']"
  have svg: "svg st = Some \<lparr> rWidth = 1000, rHeight = 600 \<rparr>"
    and single: "viewMode st = Single" and zoom: "0 < zoom st" and pan: "panX st = 0" "zoom st = 1"
    by (simp_all add: st_def exampleState_def)
  have centered: "timeToX exampleEngine st [pointEvent ''release'' ''2026-11-02''] 1793577600000
      = Some (rWidth \<lparr> rWidth = 1000, rHeight = 600 \<rparr> / 2)"
    using witness_center by (simp add: st_def)
  have inside: "events st = [] \<or> collectDates exampleEngine (events st) = [] \<or>
       (let z' = max 0.1 (min 10 2);
            p' = rWidth \<lparr> rWidth = 1000, rHeight = 600 \<rparr> / 2 -
                 (rWidth \<lparr> rWidth = 1000, rHeight = 600 \<rparr> / 2 - panX st - MARGIN_left) / zoom st * z' -
                 MARGIN_left
        in fst (panXRange exampleEngine (st\<lparr>zoom := z'\<rparr>) \<lparr> rWidth = 1000, rHeight = 600 \<rparr>) \<le> p' \<and>
           p' \<le> snd (panXRange exampleEngine (st\<lparr>zoom := z'\<rparr>) \<lparr> rWidth = 1000, rHeight = 600 \<rparr>))"
  proof -
    have "panXRange exampleEngine (st\<lparr>zoom := 2\<rparr>) \<lparr> rWidth = 1000, rHeight = 600 \<rparr> = (- 1500, 900)"
      using witness_pan_range by (simp add: st_def)
    then show ?thesis
      by (simp add: Let_def pan MARGIN_left_def)
  qed
  from setZoom_keeps_center_single[OF svg single zoom centered inside]
  show ?thesis
    using svg single zoom witness_center by (simp add: st_def)
qed

text \<open>
  The claim as stated fails in the single view: at zoom 1 with the pan at its lower bound
  \<open>-700\<close> the date under the centre (pixel 500) is 52.5 days after the only event; zooming
  to 10 solves for the pan \<open>-10600\<close>, \<open>constrainPan\<close> raises it to \<open>-7900\<close>, and the date
  lands at pixel 3200.
\<close>

theorem setZoom_clamped_moves_center:
  "timeToX exampleEngine (exampleState Single 1 (- 700) [pointEvent ''release'' ''2026-11-02''])
     [pointEvent ''release'' ''2026-11-02''] 1798113600000 = Some 500 \<and>
   rWidth \<lparr> rWidth = 1000, rHeight = 600 \<rparr> / 2 = 500 \<and>
   timeToX exampleEngine
     (setZoom exampleEngine 10 (exampleState Single 1 (- 700) [pointEvent ''release'' ''2026-11-02'']))
     [pointEvent ''release'' ''2026-11-02''] 1798113600000 = Some 3200"
  using cex_before cex_after by (simp add: cex_setZoom)

text \<open>
  C6. The placements computed by \<open>calculateEventPositions\<close> are a function of its
  arguments (the events, the date range, axis origin, scale and axis height that the
  caller derives from viewport, mode and today, and the date label spans) and of the
  entity filter, which it reads from the renderer state: two calls with the same arguments
  in states with the same entity filter return the same list, whatever else differs
  between the states.
\<close>

theorem positions_depend_on_inputs_only:
  assumes "fEntity (filters st) = fEntity (filters st')"
  shows "calculateEventPositions E st es rs re ax scale axisY labels =
         calculateEventPositions E st' es rs re ax scale axisY labels"
  using assms by (simp add: calculateEventPositions_def)

theorem positions_depend_on_inputs_only_witness:
  "fEntity (filters (exampleState Single 0.5 0 [])) = fEntity (filters (exampleState Goal 3 (- 40) [])) \<and>
   exampleState Single 0.5 0 [] \<noteq> exampleState Goal 3 (- 40) [] \<and>
   calculateEventPositions exampleEngine (exampleState Single 0.5 0 [])
     [pointEvent ''alpha'' ''2026-11-02'', pointEvent ''beta'' ''2026-11-12'']
     1793491200000 1794528000000 100 (1 / 2592000) 300 [] =
   calculateEventPositions exampleEngine (exampleState Goal 3 (- 40) [])
     [pointEvent ''alpha'' ''2026-11-02'', pointEvent ''beta'' ''2026-11-12'']
     1793491200000 1794528000000 100 (1 / 2592000) 300 []"
proof -
  have h: "fEntity (filters (exampleState Single 0.5 0 [])) = fEntity (filters (exampleState Goal 3 (- 40) []))"
    by (simp add: exampleState_def)
  have d: "exampleState Single 0.5 0 [] \<noteq> exampleState Goal 3 (- 40) []"
    by (simp add: exampleState_def)
  from positions_depend_on_inputs_only[OF h] h d show ?thesis by blast
qed

text \<open>
  C7. The claim: every range placed by the layout has \<open>x2 \<ge> x\<close>, equivalently every parse
  result with an end date has \<open>endDate \<ge> startDate\<close>. Neither the parser nor the layout
  orders the two ends of a range. What holds for every placement when the scale is
  non-negative: an event that is not a range (no end date, or ongoing) has \<open>x2 = x\<close>, and a
  range whose end instant is not before its start instant has \<open>x \<le> x2\<close>.
\<close>

theorem range_placement_order:
  assumes "0 \<le> scale"
    and "p \<in> set (calculateEventPositions E st es rs re ax scale axisY labels)"
  shows "(let ev = p_event p;
              isRange = (truthy (evEndDate ev) \<and> \<not> evIsOngoing ev)
          in (\<not> isRange \<longrightarrow> p_x2 p = p_x p) \<and>
             (\<forall>ts te. isRange \<and>
                 validTime E (orElse (evStartDate ev) (computedDate ev)) = Some ts \<and>
                 validTime E (evEndDate ev) = Some te \<and> ts \<le> te \<longrightarrow> p_x p \<le> p_x2 p))"
proof -
  from calculateEventPositions_member[OF assms(2)] obtain e where
    e: "toEntry E rs ax scale (p_event p) = Some e" "p_x p = p_x e" "p_x2 p = p_x2 e" by blast
  show ?thesis
    unfolding Let_def e(2,3)
    using toEntry_point[OF e(1)] toEntry_forward[OF e(1) assms(1)] by blast
qed

theorem range_placement_order_witness:
  "(let ps = calculateEventPositions exampleEngine (exampleState Single 1 0 [])
               [parsedEvent ''spring'' \<lparr> startDate = str ''2026-04-01'',
                                         endDate = Some (str ''2026-06-28''), isOngoing = False \<rparr>]
               1775001600000 1782604800000 100 (1 / 86400000) 300 []
    in ps \<noteq> [] \<and> truthy (evEndDate (p_event (ps ! 0))) \<and> \<not> evIsOngoing (p_event (ps ! 0)) \<and>
       p_x (ps ! 0) \<le> p_x2 (ps ! 0))"
proof -
  define ev where "ev = parsedEvent ''spring'' \<lparr> startDate = str ''2026-04-01'',
                                         endDate = Some (str ''2026-06-28''), isOngoing = False \<rparr>"
  define ps where "ps = calculateEventPositions exampleEngine (exampleState Single 1 0 []) [ev]
               1775001600000 1782604800000 100 (1 / 86400000) 300 []"
  have ps: "ps = [\<lparr> p_event = ev, p_x = 100, p_x2 = 188, p_y = 240, p_level = 0 \<rparr>]"
    unfolding ps_def ev_def by (rule forward_range_positions)
  then have mem: "ps ! 0 \<in> set (calculateEventPositions exampleEngine (exampleState Single 1 0 []) [ev]
               1775001600000 1782604800000 100 (1 / 86400000) 300 [])"
    unfolding ps_def[symmetric] by simp
  have ev: "p_event (ps ! 0) = ev" using ps by simp
  have fields: "evStartDate ev = Some (str ''2026-04-01'')" "evEndDate ev = Some (str ''2026-06-28'')"
    "\<not> evIsOngoing ev" "truthy (evEndDate ev)"
    by (simp_all add: ev_def parsedEvent_def orElse_def truthy_def str_def)
  have sc: "0 \<le> (1 / 86400000 :: real)" by simp
  from range_placement_order[OF sc mem]
  have "\<forall>ts te. (truthy (evEndDate ev) \<and> \<not> evIsOngoing ev) \<and>
          validTime exampleEngine (orElse (evStartDate ev) (computedDate ev)) = Some ts \<and>
          validTime exampleEngine (evEndDate ev) = Some te \<and> ts \<le> te \<longrightarrow> p_x (ps ! 0) \<le> p_x2 (ps ! 0)"
    unfolding Let_def ev by blast
  moreover have "validTime exampleEngine (orElse (evStartDate ev) (computedDate ev)) = Some 1775001600000"
    using forward_range_times(1) by (simp add: fields orElse_def truthy_def str_def)
  moreover have "validTime exampleEngine (evEndDate ev) = Some 1782604800000"
    using forward_range_times(2) by (simp add: fields)
  ultimately have "p_x (ps ! 0) \<le> p_x2 (ps ! 0)"
    using fields by force
  with ps fields ev show ?thesis
    unfolding Let_def ps_def[symmetric] ev_def[symmetric] by simp
qed

text \<open>
  The claim as stated fails for the text \<open>2027-2026\<close>: the parse result ends on 31 December
  2026, before it starts on 1 January 2027, and the event stored for it is placed with
  \<open>x2 < x\<close> (canvas 1000 wide, zoom 1, no pan, today 2 November 2026, for which the single
  view computes the date range below, the axis origin 100 and the scale \<open>800 / 6220800000\<close>).
\<close>

theorem reversed_range_is_not_reordered:
  "parse exampleEngine (str ''2027-2026'') =
     Inr (Some \<lparr> startDate = str ''2027-01-01'', endDate = Some (str ''2026-12-31''),
                  isOngoing = False \<rparr>) \<and>
   renderRange exampleEngine
     [parsedEvent ''span'' \<lparr> startDate = str ''2027-01-01'', endDate = Some (str ''2026-12-31''),
                             isOngoing = False \<rparr>]
     = Some (1793059200000, 1799280000000) \<and>
   validTime exampleEngine (Some (str ''2027-01-01'')) = Some 1798761600000 \<and>
   validTime exampleEngine (Some (str ''2026-12-31'')) = Some 1798675200000 \<and>
   map (\<lambda>p. (p_x p, p_x2 p))
     (calculateEventPositions exampleEngine
        (exampleState Single 1 0
           [parsedEvent ''span'' \<lparr> startDate = str ''2027-01-01'', endDate = Some (str ''2026-12-31''),
                                   isOngoing = False \<rparr>])
        [parsedEvent ''span'' \<lparr> startDate = str ''2027-01-01'', endDate = Some (str ''2026-12-31''),
                                isOngoing = False \<rparr>]
        1793059200000 1799280000000 100 (1 / 7776000) 300 [])
   = [(2500 / 3, 7400 / 9)] \<and>
   (7400 / 9 :: real) < 2500 / 3"
  using parse_eval_reversed[of exampleEngine] reversed_range_times reversed_range_positions
        reversed_range_axis
  by simp

text \<open>
  C9. Applying the pan clamp to an already clamped state changes nothing: \<open>constrainPan\<close>
  is idempotent, for every engine and every renderer state.
\<close>

theorem constrainPan_idempotent: "constrainPan E (constrainPan E st) = constrainPan E st"
proof (cases "svg st = None \<or> events st = [] \<or> collectDates E (events st) = []")
  case True
  then show ?thesis by (simp add: constrainPan_noop)
next
  case False
  then obtain r where r: "svg st = Some r" "events st \<noteq> []" "collectDates E (events st) \<noteq> []"
    by auto
  show ?thesis
  proof (cases "isSplit st \<and> 0 < rowCount st")
    case True
    define st' where "st' = st \<lparr> panX := max (fst (panXRange E st r)) (min (snd (panXRange E st r)) (panX st)),
          panY := max (fst (panYRange st r)) (min (snd (panYRange st r)) (panY st)) \<rparr>"
    have 1: "constrainPan E st = st'"
      unfolding st'_def using r True by (intro constrainPan_both) simp_all
    have "constrainPan E st' =
       st' \<lparr> panX := max (fst (panXRange E st' r)) (min (snd (panXRange E st' r)) (panX st')),
          panY := max (fst (panYRange st' r)) (min (snd (panYRange st' r)) (panY st')) \<rparr>"
      using r True by (intro constrainPan_both) (simp_all add: st'_def)
    also have "\<dots> = st'"
      by (simp add: st'_def clamp_idem)
    finally show ?thesis using 1 by simp
  next
    case no: False
    define st' where "st' = st \<lparr> panX := max (fst (panXRange E st r)) (min (snd (panXRange E st r)) (panX st)) \<rparr>"
    have 1: "constrainPan E st = st'"
      unfolding st'_def using r no by (intro constrainPan_horizontal) simp_all
    have "constrainPan E st' =
       st' \<lparr> panX := max (fst (panXRange E st' r)) (min (snd (panXRange E st' r)) (panX st')) \<rparr>"
      using r no by (intro constrainPan_horizontal) (simp_all add: st'_def)
    also have "\<dots> = st'"
      by (simp add: st'_def clamp_idem)
    finally show ?thesis using 1 by simp
  qed
qed

theorem constrainPan_idempotent_witness:
  "constrainPan exampleEngine
     (constrainPan exampleEngine (exampleState Entity 1 5000 [pointEvent ''release'' ''2026-11-02''])) =
   constrainPan exampleEngine (exampleState Entity 1 5000 [pointEvent ''release'' ''2026-11-02''])"
  using constrainPan_idempotent[of exampleEngine "exampleState Entity 1 5000 [pointEvent ''release'' ''2026-11-02'']"]
  by blast

end
